theory Spec2Isabelle
  imports Main "HOL-Library.Multiset" "HOL-Library.Sublist"
begin

section \<open>Data model of app.py\<close>

text \<open>
  The exceptions the program can raise. \<open>ValueError\<close> carries the message the source
  gives it (\<open>raise ValueError("id not found")\<close>); the messages of the errors raised by
  builtins are not modelled, except that the \<open>ValueError\<close> of \<open>int()\<close> on a string that
  is no integer literal is \<open>ValueError ''invalid literal for int()''\<close>.
\<close>

datatype py_error = ValueError string | TypeError | AttributeError

text \<open>
  A Python \<open>str\<close> is the list of the bytes of its UTF-8 encoding. The characters the
  program names (hyphen, period, comma, apostrophe, space) are single bytes below 128,
  which occur in the encoding of no other character, so \<open>str.replace\<close> on them acts on
  the bytes as it does on the characters, and \<open>==\<close> on strings is equality of the lists.

  The dataclasses. A field the standardizer copies from the decoded line holds a string
  or \<open>None\<close> (a JSON string or \<open>null\<close>, or the \<open>None\<close> the standardizer puts where the
  key is absent), hence \<open>string option\<close>; a list of strings that is copied may be \<open>null\<close>
  as well. The fields \<open>value\<close>, \<open>type_\<close> and \<open>comment\<close> of the nested classes are
  prefixed with their class, and \<open>id_\<close> and \<open>type_\<close> of \<open>Record\<close> are \<open>rec_id\<close> and
  \<open>rec_type\<close>.
\<close>

record Address =
  addr_value :: "string option"
  country :: "string option"
  postal_code :: "string option"

record Alias =
  alias_value :: "string option"
  alias_type :: "string option"

record IDNumber =
  idn_value :: "string option"
  idn_comment :: "string option"

record Record =
  rec_id :: int
  rec_type :: string
  name :: string
  aliases :: "Alias list"
  nationality :: "string list option"
  addresses :: "Address list"
  id_numbers :: "IDNumber list"
  place_of_birth :: "string option"
  position :: "string option"
  reported_dates_of_birth :: "string list option"

text \<open>
  A match criterion is a dict whose keys say which rule produced it; dict equality is
  equality of the key set and of the values, which is the equality of this datatype.
  Each field is named after its key.
\<close>

datatype match_record =
    NameToName (gbr_name: string) (ofac_name: string)
  | NameToAlias (gbr_name: string) (ofac_alias: "string option")
  | AliasToName (gbr_alias: "string option") (ofac_name: string)
  | AliasToAlias (gbr_alias: "string option") (ofac_alias: "string option")
  | IdentifierMatch (gbr_id_number: "string option") (gbr_comment: "string option")
      (ofac_id_number: "string option") (ofac_comment: "string option")

record output_record =
  gbr_id :: int
  ofac_id :: int
  matches :: "match_record list"

section \<open>Raising and looping\<close>

text \<open>
  Sequencing of two computations that may raise, and a \<open>for\<close> loop over a list whose
  body may raise and updates the loop's state (the list the loop appends to).
\<close>

definition bind_err :: "py_error + 'a \<Rightarrow> ('a \<Rightarrow> py_error + 'b) \<Rightarrow> py_error + 'b" where
  "bind_err m f = (case m of Inl e \<Rightarrow> Inl e | Inr x \<Rightarrow> f x)"

fun for_each :: "'a list \<Rightarrow> ('a \<Rightarrow> 's \<Rightarrow> py_error + 's) \<Rightarrow> 's \<Rightarrow> py_error + 's" where
  "for_each [] body s = Inr s"
| "for_each (x # xs) body s = bind_err (body x s) (\<lambda>s'. for_each xs body s')"

section \<open>The decoded input line\<close>

text \<open>
  \<open>standardize_record\<close> evaluates the line to a dict (\<open>eval\<close>, after \<open>null\<close> has been
  rewritten to \<open>None\<close>); the model starts from that dict. Each recognized key is either
  absent (\<open>None\<close>) or present. A present \<open>id\<close>, \<open>type\<close>, \<open>name\<close>, \<open>place_of_birth\<close> or
  \<open>position\<close> is a scalar: \<open>null\<close>, an integer or a string. A present \<open>nationality\<close> or
  \<open>reported_dates_of_birth\<close> is \<open>null\<close> or a list of strings. A present \<open>aliases\<close>,
  \<open>addresses\<close> or \<open>id_numbers\<close> is \<open>null\<close> or a list whose elements are \<open>null\<close> or dicts;
  such a dict maps its keys to a string or \<open>null\<close>.
\<close>

datatype raw_scalar = JNull | JInt int | JStr string

datatype 'a or_null = Null | NonNull 'a

type_synonym raw_dict = "string \<rightharpoonup> string option"

record raw_record =
  raw_id :: "raw_scalar option"
  raw_type :: "raw_scalar option"
  raw_name :: "raw_scalar option"
  raw_aliases :: "raw_dict or_null list or_null option"
  raw_nationality :: "string list or_null option"
  raw_addresses :: "raw_dict or_null list or_null option"
  raw_id_numbers :: "raw_dict or_null list or_null option"
  raw_place_of_birth :: "raw_scalar option"
  raw_position :: "raw_scalar option"
  raw_reported_dates_of_birth :: "string list or_null option"

text \<open>
  The builtin \<open>int()\<close>: \<open>None\<close> raises \<open>TypeError\<close>, an integer is itself, and a string
  is parsed; the parser of integer literals is the parameter \<open>parse\<close>.
\<close>

fun py_int :: "(string \<Rightarrow> int option) \<Rightarrow> raw_scalar \<Rightarrow> py_error + int" where
  "py_int parse JNull = Inl TypeError"
| "py_int parse (JInt i) = Inr i"
| "py_int parse (JStr s) =
     (case parse s of None \<Rightarrow> Inl (ValueError ''invalid literal for int()'') | Some i \<Rightarrow> Inr i)"

text \<open>The builtin \<open>str()\<close>: a string is itself, \<open>None\<close> is \<open>"None"\<close>, an integer is its decimal.\<close>

fun digits10 :: "nat \<Rightarrow> string" where
  "digits10 n =
     (if n < 10 then [char_of (48 + n)] else digits10 (n div 10) @ [char_of (48 + n mod 10)])"

declare digits10.simps [simp del]

definition str_of_int :: "int \<Rightarrow> string" where
  "str_of_int i = (if i < 0 then CHR ''-'' # digits10 (nat (- i)) else digits10 (nat i))"

fun py_str :: "raw_scalar \<Rightarrow> string" where
  "py_str JNull = ''None''"
| "py_str (JInt i) = str_of_int i"
| "py_str (JStr s) = s"

text \<open>A copied list of strings: \<open>null\<close> is copied as \<open>None\<close>.\<close>

fun copy_list :: "string list or_null \<Rightarrow> string list option" where
  "copy_list Null = None"
| "copy_list (NonNull l) = Some l"

section \<open>Record Standardizer\<close>

text \<open>\<open>d[key] if key in d else None\<close>, on a nested dict.\<close>

definition get_or_None :: "raw_dict \<Rightarrow> string \<Rightarrow> string option" where
  "get_or_None d key = (case d key of Some v \<Rightarrow> v | None \<Rightarrow> None)"

text \<open>
  Each loop appends one standardized element per element of its input. Iterating over
  \<open>None\<close> raises \<open>TypeError\<close>, and so does the test \<open>"value" in address\<close> on an element that
  is \<open>None\<close>.
\<close>

definition standardize_addresses :: "raw_dict or_null list or_null \<Rightarrow> py_error + Address list" where
  "standardize_addresses address_list =
     (case address_list of
        Null \<Rightarrow> Inl TypeError
      | NonNull l \<Rightarrow>
          for_each l
            (\<lambda>address standard_addresses.
               case address of
                 Null \<Rightarrow> Inl TypeError
               | NonNull d \<Rightarrow>
                   Inr (standard_addresses
                        @ [\<lparr>addr_value = get_or_None d ''value'',
                             country = get_or_None d ''country'',
                             postal_code = get_or_None d ''postal_code''\<rparr>]))
            [])"

definition standardize_aliases :: "raw_dict or_null list or_null \<Rightarrow> py_error + Alias list" where
  "standardize_aliases aliases_list =
     (case aliases_list of
        Null \<Rightarrow> Inl TypeError
      | NonNull l \<Rightarrow>
          for_each l
            (\<lambda>alias standard_aliases.
               case alias of
                 Null \<Rightarrow> Inl TypeError
               | NonNull d \<Rightarrow>
                   Inr (standard_aliases
                        @ [\<lparr>alias_value = get_or_None d ''value'',
                             alias_type = get_or_None d ''type''\<rparr>]))
            [])"

definition standardize_id_numbers :: "raw_dict or_null list or_null \<Rightarrow> py_error + IDNumber list" where
  "standardize_id_numbers id_numbers_list =
     (case id_numbers_list of
        Null \<Rightarrow> Inl TypeError
      | NonNull l \<Rightarrow>
          for_each l
            (\<lambda>id_numbers standard_id_numbers.
               case id_numbers of
                 Null \<Rightarrow> Inl TypeError
               | NonNull d \<Rightarrow>
                   Inr (standard_id_numbers
                        @ [\<lparr>idn_value = get_or_None d ''value'',
                             idn_comment = get_or_None d ''comment''\<rparr>]))
            [])"

text \<open>
  The checks and conversions of \<open>standardize_record\<close> in the order of the source: the
  first that raises ends the call.
\<close>

definition standardize_record :: "(string \<Rightarrow> int option) \<Rightarrow> raw_record \<Rightarrow> py_error + Record" where
  "standardize_record parse record_dict =
     bind_err (case raw_id record_dict of
                 Some v \<Rightarrow> py_int parse v
               | None \<Rightarrow> Inl (ValueError ''id not found'')) (\<lambda>id'.
     bind_err (case raw_type record_dict of
                 Some v \<Rightarrow> Inr (py_str v)
               | None \<Rightarrow> Inl (ValueError ''type not found'')) (\<lambda>type'.
     bind_err (case raw_name record_dict of
                 Some v \<Rightarrow> Inr (py_str v)
               | None \<Rightarrow> Inl (ValueError ''name not found'')) (\<lambda>name'.
     bind_err (case raw_aliases record_dict of
                 Some l \<Rightarrow> standardize_aliases l
               | None \<Rightarrow> Inr []) (\<lambda>aliases'.
     bind_err (Inr (case raw_nationality record_dict of
                      Some l \<Rightarrow> copy_list l
                    | None \<Rightarrow> Some [])) (\<lambda>nationality'.
     bind_err (case raw_addresses record_dict of
                 Some l \<Rightarrow> standardize_addresses l
               | None \<Rightarrow> Inr []) (\<lambda>addresses'.
     bind_err (case raw_id_numbers record_dict of
                 Some l \<Rightarrow> standardize_id_numbers l
               | None \<Rightarrow> Inr []) (\<lambda>id_numbers'.
     Inr \<lparr>rec_id = id',
          rec_type = type',
          name = name',
          aliases = aliases',
          nationality = nationality',
          addresses = addresses',
          id_numbers = id_numbers',
          place_of_birth = (case raw_place_of_birth record_dict of
                              Some p \<Rightarrow> Some (py_str p) | None \<Rightarrow> None),
          position = (case raw_position record_dict of
                        Some p \<Rightarrow> Some (py_str p) | None \<Rightarrow> None),
          reported_dates_of_birth =
            (case raw_reported_dates_of_birth record_dict of
               Some l \<Rightarrow> copy_list l | None \<Rightarrow> Some [])\<rparr>)))))))"

section \<open>Name Normalizer\<close>

text \<open>
  \<open>str.replace\<close> for a pattern of one character. The builtin \<open>str.lower\<close> is the parameter
  \<open>lower\<close> of \<open>clean_name\<close> and of everything that calls it: its case tables are no part
  of the program.

  \<open>clean_name\<close> is called on names, which are strings, and on \<open>alias.value\<close>, which may
  be \<open>None\<close>: \<open>None.lower()\<close> raises \<open>AttributeError\<close>.
\<close>

definition replace :: "char \<Rightarrow> string \<Rightarrow> string \<Rightarrow> string" where
  "replace old new s = concat (map (\<lambda>c. if c = old then new else [c]) s)"

fun clean_name :: "(string \<Rightarrow> string) \<Rightarrow> string option \<Rightarrow> py_error + string" where
  "clean_name lower None = Inl AttributeError"
| "clean_name lower (Some s) =
     Inr (replace (CHR 0x27) '''' (replace CHR '','' '''' (replace CHR ''.'' ''''
            (replace CHR ''-'' '' '' (lower s)))))"

section \<open>Matching Engine\<close>

definition get_name_matches ::
    "(string \<Rightarrow> string) \<Rightarrow> Record \<times> Record \<Rightarrow> py_error + match_record list" where
  "get_name_matches lower potential_match =
     (case potential_match of (gbr_record, ofac_record) \<Rightarrow>
        bind_err (clean_name lower (Some (name gbr_record))) (\<lambda>gbr_clean.
        bind_err (clean_name lower (Some (name ofac_record))) (\<lambda>ofac_clean.
        for_each (aliases ofac_record)
          (\<lambda>alias matches.
             bind_err (clean_name lower (Some (name gbr_record))) (\<lambda>gbr_clean.
             bind_err (clean_name lower (alias_value alias)) (\<lambda>alias_clean.
             Inr (if gbr_clean = alias_clean
                  then matches @ [NameToAlias (name gbr_record) (alias_value alias)]
                  else matches))))
          (if gbr_clean = ofac_clean then [NameToName (name gbr_record) (name ofac_record)] else []))))"

definition get_alias_matches ::
    "(string \<Rightarrow> string) \<Rightarrow> Record \<times> Record \<Rightarrow> py_error + match_record list" where
  "get_alias_matches lower potential_match =
     (case potential_match of (gbr_record, ofac_record) \<Rightarrow>
        for_each (aliases gbr_record)
          (\<lambda>gbr_alias matches.
             bind_err (clean_name lower (alias_value gbr_alias)) (\<lambda>gbr_clean.
             bind_err (clean_name lower (Some (name ofac_record))) (\<lambda>ofac_clean.
             for_each (aliases ofac_record)
               (\<lambda>ofac_alias matches.
                  bind_err (clean_name lower (alias_value gbr_alias)) (\<lambda>gbr_clean.
                  bind_err (clean_name lower (alias_value ofac_alias)) (\<lambda>alias_clean.
                  Inr (if gbr_clean = alias_clean
                       then matches @ [AliasToAlias (alias_value gbr_alias) (alias_value ofac_alias)]
                       else matches))))
               (if gbr_clean = ofac_clean
                then matches @ [AliasToName (alias_value gbr_alias) (name ofac_record)]
                else matches))))
          [])"

text \<open>The identifier rule compares with \<open>==\<close> and calls nothing that raises.\<close>

definition get_id_matches :: "Record \<times> Record \<Rightarrow> match_record list" where
  "get_id_matches potential_match =
     (case potential_match of (gbr_record, ofac_record) \<Rightarrow>
        fold (\<lambda>gbr_id matches.
                fold (\<lambda>ofac_id matches.
                        if idn_value gbr_id = idn_value ofac_id
                        then matches @ [IdentifierMatch (idn_value gbr_id) (idn_comment gbr_id)
                                          (idn_value ofac_id) (idn_comment ofac_id)]
                        else matches)
                     (id_numbers ofac_record) matches)
             (id_numbers gbr_record) [])"

definition get_all_matches ::
    "(string \<Rightarrow> string) \<Rightarrow> Record \<times> Record \<Rightarrow> py_error + output_record" where
  "get_all_matches lower potential_match =
     (case potential_match of (gbr_record, ofac_record) \<Rightarrow>
        bind_err (get_name_matches lower potential_match) (\<lambda>name_matches.
        bind_err (get_alias_matches lower potential_match) (\<lambda>alias_matches.
        let id_matches = get_id_matches potential_match;
            all_matches = name_matches @ alias_matches @ id_matches
        in Inr \<lparr>gbr_id = rec_id gbr_record, ofac_id = rec_id ofac_record, matches = all_matches\<rparr>)))"

section \<open>Evidence Deduplicator\<close>

text \<open>
  \<open>pd.Series(all_matches).drop_duplicates().to_list()\<close>, by the documented contract of
  the library call (\<open>keep='first'\<close>): an element is dropped when an equal element stands
  before it. The scan keeps the elements seen so far.
\<close>

fun drop_seen :: "'a list \<Rightarrow> 'a list \<Rightarrow> 'a list" where
  "drop_seen seen [] = []"
| "drop_seen seen (x # xs) =
     (if x \<in> set seen then drop_seen seen xs else x # drop_seen (x # seen) xs)"

definition series_drop_duplicates :: "'a list \<Rightarrow> 'a list" where
  "series_drop_duplicates xs = drop_seen [] xs"

definition drop_duplicates :: "output_record \<Rightarrow> output_record" where
  "drop_duplicates output_record =
     (let all_matches = matches output_record;
          unique_matches = series_drop_duplicates all_matches
      in \<lparr>gbr_id = gbr_id output_record, ofac_id = ofac_id output_record,
          matches = unique_matches\<rparr>)"

section \<open>Pairwise Join Orchestrator\<close>

text \<open>
  \<open>rdd.map(f)\<close> for an \<open>f\<close> that may raise: the job fails when \<open>f\<close> raises on an
  element. The cartesian product pairs every record of the first collection with every
  record of the second; the pairs are listed in the order of one partition per
  collection (with more partitions Spark lists them partition by partition).
\<close>

fun rdd_map :: "('a \<Rightarrow> py_error + 'b) \<Rightarrow> 'a list \<Rightarrow> py_error + 'b list" where
  "rdd_map f [] = Inr []"
| "rdd_map f (x # xs) = bind_err (f x) (\<lambda>y. bind_err (rdd_map f xs) (\<lambda>ys. Inr (y # ys)))"

definition cartesian :: "'a list \<Rightarrow> 'b list \<Rightarrow> ('a \<times> 'b) list" where
  "cartesian xs ys = concat (map (\<lambda>x. map (\<lambda>y. (x, y)) ys) xs)"

text \<open>
  The pipeline of \<open>main\<close> from the two standardized collections on (\<open>cartesian\<close>,
  \<open>map\<close>, \<open>filter\<close>, \<open>map\<close>); reading and writing the files is left out.
\<close>

definition run ::
    "(string \<Rightarrow> string) \<Rightarrow> Record list \<Rightarrow> Record list \<Rightarrow> py_error + output_record list" where
  "run lower gbr ofac =
     (let potential_matches = cartesian gbr ofac
      in bind_err (rdd_map (get_all_matches lower) potential_matches) (\<lambda>all.
         Inr (map drop_duplicates (filter (\<lambda>output_record. matches output_record \<noteq> []) all))))"

section \<open>What is used of \<open>str.lower\<close>\<close>

text \<open>
  On a string of ASCII characters \<open>str.lower\<close> maps the letters \<open>A\<close> to \<open>Z\<close> to \<open>a\<close> to \<open>z\<close>
  and leaves the other characters as they are: \<open>lower_on_ascii\<close> says this of the
  parameter. \<open>ascii_lower\<close> does the same to the bytes below 128 of any string; it stands
  for \<open>str.lower\<close> where a concrete input of ASCII strings is evaluated.
\<close>

definition lower_char :: "char \<Rightarrow> char" where
  "lower_char c =
     (let n = (of_char c :: nat) in if 65 \<le> n \<and> n \<le> 90 then char_of (n + 32) else c)"

definition ascii_lower :: "string \<Rightarrow> string" where
  "ascii_lower s = map lower_char s"

definition is_ascii :: "string \<Rightarrow> bool" where
  "is_ascii s = list_all (\<lambda>c. (of_char c :: nat) < 128) s"

definition lower_on_ascii :: "(string \<Rightarrow> string) \<Rightarrow> bool" where
  "lower_on_ascii lower = (\<forall>s. is_ascii s \<longrightarrow> lower s = ascii_lower s)"

text \<open>
  The four replacements that follow the lowercasing, as the specification words them:
  replace each hyphen with a space, remove every period, remove every comma, remove
  every apostrophe.
\<close>

definition replace_steps :: "string \<Rightarrow> string" where
  "replace_steps s =
     filter (\<lambda>c. c \<noteq> CHR 0x27)
       (filter (\<lambda>c. c \<noteq> CHR '','')
          (filter (\<lambda>c. c \<noteq> CHR ''.'')
             (map (\<lambda>c. if c = CHR ''-'' then CHR '' '' else c) s)))"

text \<open>
  Two more properties of \<open>str.lower\<close>: lowering a lowered string changes nothing, and a
  string that lowering leaves as it is (it has no character with a different lower
  case, so no capital sigma either, the one character \<open>str.lower\<close> maps by context) is
  still left as it is after its hyphens are replaced by spaces and its periods, commas
  and apostrophes are removed.
\<close>

definition lower_idempotent :: "(string \<Rightarrow> string) \<Rightarrow> bool" where
  "lower_idempotent lower = (\<forall>s. lower (lower s) = lower s)"

definition lower_keeps_fixed :: "(string \<Rightarrow> string) \<Rightarrow> bool" where
  "lower_keeps_fixed lower = (\<forall>t. lower t = t \<longrightarrow> lower (replace_steps t) = replace_steps t)"

section \<open>The specification's reading of the operations\<close>

text \<open>
  The normalization as the specification words it: lowercase the entire string, then
  the four replacements.
\<close>

definition normalize_spec :: "(string \<Rightarrow> string) \<Rightarrow> string \<Rightarrow> string" where
  "normalize_spec lower s = replace_steps (lower s)"

text \<open>
  The three rule families as the specification words them, over the aliases that have a
  string value: the name rules, the alias rules (every left alias against the right name
  and against every right alias) and the identifier rules.
\<close>

definition name_rules :: "(string \<Rightarrow> string) \<Rightarrow> Record \<Rightarrow> Record \<Rightarrow> match_record list" where
  "name_rules lower left right =
     (if normalize_spec lower (name left) = normalize_spec lower (name right)
      then [NameToName (name left) (name right)] else [])
     @ concat (map (\<lambda>a. case alias_value a of
                           None \<Rightarrow> []
                         | Some v \<Rightarrow> if normalize_spec lower (name left) = normalize_spec lower v
                                     then [NameToAlias (name left) (Some v)] else [])
                   (aliases right))"

definition alias_rules :: "(string \<Rightarrow> string) \<Rightarrow> Record \<Rightarrow> Record \<Rightarrow> match_record list" where
  "alias_rules lower left right =
     concat (map (\<lambda>la. case alias_value la of
                          None \<Rightarrow> []
                        | Some lv \<Rightarrow>
                            (if normalize_spec lower lv = normalize_spec lower (name right)
                             then [AliasToName (Some lv) (name right)] else [])
                            @ concat (map (\<lambda>ra. case alias_value ra of
                                                   None \<Rightarrow> []
                                                 | Some rv \<Rightarrow>
                                                     if normalize_spec lower lv = normalize_spec lower rv
                                                     then [AliasToAlias (Some lv) (Some rv)]
                                                     else [])
                                          (aliases right)))
                 (aliases left))"

definition identifier_rules :: "Record \<Rightarrow> Record \<Rightarrow> match_record list" where
  "identifier_rules left right =
     concat (map (\<lambda>li. concat (map (\<lambda>ri. if idn_value li = idn_value ri
                                          then [IdentifierMatch (idn_value li) (idn_comment li)
                                                  (idn_value ri) (idn_comment ri)]
                                          else [])
                                    (id_numbers right)))
                 (id_numbers left))"

text \<open>Every alias of the record has a string for its value.\<close>

definition aliases_have_values :: "Record \<Rightarrow> bool" where
  "aliases_have_values r = list_all (\<lambda>a. alias_value a \<noteq> None) (aliases r)"

text \<open>A match criterion read from the other side: left and right exchange their fields.\<close>

fun mirror :: "match_record \<Rightarrow> match_record" where
  "mirror (NameToName l r) = NameToName r l"
| "mirror (NameToAlias l r) = AliasToName r l"
| "mirror (AliasToName l r) = NameToAlias r l"
| "mirror (AliasToAlias l r) = AliasToAlias r l"
| "mirror (IdentifierMatch lv lc rv rc) = IdentifierMatch rv rc lv lc"

text \<open>
  The parts of the rules that one pair of aliases, one pair of identifiers and the left
  aliases against the right name contribute.
\<close>

definition alias_name_part :: "(string \<Rightarrow> string) \<Rightarrow> Record \<Rightarrow> Record \<Rightarrow> match_record list" where
  "alias_name_part lower l r = concat (map (\<lambda>la. case alias_value la of
                          None \<Rightarrow> []
                        | Some lv \<Rightarrow>
                            (if normalize_spec lower lv = normalize_spec lower (name r)
                             then [AliasToName (Some lv) (name r)] else [])) (aliases l))"

definition alias_pair :: "(string \<Rightarrow> string) \<Rightarrow> Alias \<Rightarrow> Alias \<Rightarrow> match_record list" where
  "alias_pair lower la ra = (case alias_value la of
                          None \<Rightarrow> []
                        | Some lv \<Rightarrow> (case alias_value ra of
                                                   None \<Rightarrow> []
                                                 | Some rv \<Rightarrow>
                                                     if normalize_spec lower lv = normalize_spec lower rv
                                                     then [AliasToAlias (Some lv) (Some rv)]
                                                     else []))"

definition id_pair :: "IDNumber \<Rightarrow> IDNumber \<Rightarrow> match_record list" where
  "id_pair li ri = (if idn_value li = idn_value ri
                                          then [IdentifierMatch (idn_value li) (idn_comment li)
                                                  (idn_value ri) (idn_comment ri)]
                                          else [])"

text \<open>The identifier criteria among the match criteria.\<close>

fun is_identifier_match :: "match_record \<Rightarrow> bool" where
  "is_identifier_match (IdentifierMatch lv lc rv rc) = True"
| "is_identifier_match m = False"

text \<open>
  The decoded line is well shaped: each of \<open>aliases\<close>, \<open>addresses\<close> and \<open>id_numbers\<close> is
  absent or a list of dicts.
\<close>

fun list_of_dicts :: "raw_dict or_null list or_null option \<Rightarrow> bool" where
  "list_of_dicts None = True"
| "list_of_dicts (Some Null) = False"
| "list_of_dicts (Some (NonNull l)) = list_all (\<lambda>x. x \<noteq> Null) l"

section \<open>Example inputs\<close>

text \<open>
  Two decoded lines, one of each file, and the records they standardize to: the same
  name up to case, the same identifier value with different comments.
\<close>

definition gbr_line :: raw_record where
  "gbr_line =
     \<lparr>raw_id = Some (JInt 1), raw_type = Some (JStr ''individual''),
      raw_name = Some (JStr ''Ali Hassan''), raw_aliases = None, raw_nationality = None,
      raw_addresses = None,
      raw_id_numbers =
        Some (NonNull [NonNull [''value'' \<mapsto> Some ''X1'', ''comment'' \<mapsto> Some ''passport'']]),
      raw_place_of_birth = None, raw_position = None, raw_reported_dates_of_birth = None\<rparr>"

definition ofac_line :: raw_record where
  "ofac_line =
     \<lparr>raw_id = Some (JInt 9), raw_type = Some (JStr ''individual''),
      raw_name = Some (JStr ''ali hassan''), raw_aliases = None, raw_nationality = None,
      raw_addresses = None,
      raw_id_numbers =
        Some (NonNull [NonNull [''value'' \<mapsto> Some ''X1'', ''comment'' \<mapsto> Some ''reg'']]),
      raw_place_of_birth = None, raw_position = None, raw_reported_dates_of_birth = None\<rparr>"

definition gbr_example :: Record where
  "gbr_example =
     \<lparr>rec_id = 1, rec_type = ''individual'', name = ''Ali Hassan'', aliases = [],
      nationality = Some [], addresses = [],
      id_numbers = [\<lparr>idn_value = Some ''X1'', idn_comment = Some ''passport''\<rparr>],
      place_of_birth = None, position = None, reported_dates_of_birth = Some []\<rparr>"

definition ofac_example :: Record where
  "ofac_example =
     \<lparr>rec_id = 9, rec_type = ''individual'', name = ''ali hassan'', aliases = [],
      nationality = Some [], addresses = [],
      id_numbers = [\<lparr>idn_value = Some ''X1'', idn_comment = Some ''reg''\<rparr>],
      place_of_birth = None, position = None, reported_dates_of_birth = Some []\<rparr>"

text \<open>
  Two records with an alias each: the name of each normalizes as the alias of the other.
\<close>

definition gbr_alias_example :: Record where
  "gbr_alias_example =
     \<lparr>rec_id = 1, rec_type = ''individual'', name = ''Ali Hassan'',
      aliases = [\<lparr>alias_value = Some ''Hassan, Ali'', alias_type = Some ''a.k.a.''\<rparr>],
      nationality = Some [], addresses = [],
      id_numbers = [\<lparr>idn_value = Some ''X1'', idn_comment = Some ''passport''\<rparr>],
      place_of_birth = None, position = None, reported_dates_of_birth = Some []\<rparr>"

definition ofac_alias_example :: Record where
  "ofac_alias_example =
     \<lparr>rec_id = 9, rec_type = ''individual'', name = ''hassan ali'',
      aliases = [\<lparr>alias_value = Some ''ALI HASSAN'', alias_type = None\<rparr>],
      nationality = Some [], addresses = [],
      id_numbers = [\<lparr>idn_value = Some ''X1'', idn_comment = None\<rparr>],
      place_of_birth = None, position = None, reported_dates_of_birth = Some []\<rparr>"

section \<open>Properties of the name normalizer\<close>

lemma bind_err_simps [simp]:
  "bind_err (Inl e) f = Inl e"
  "bind_err (Inr x) f = f x"
  by (simp_all add: bind_err_def)

lemma replace_remove: "replace old [] s = filter (\<lambda>c. c \<noteq> old) s"
  by (induction s) (simp_all add: replace_def)

lemma replace_single: "replace old [new] s = map (\<lambda>c. if c = old then new else c) s"
  by (induction s) (simp_all add: replace_def)

lemma clean_name_Some: "clean_name lower (Some s) = Inr (normalize_spec lower s)"
  by (simp only: clean_name.simps normalize_spec_def replace_steps_def
        replace_remove replace_single)

lemma replace_steps_idem: "replace_steps (replace_steps s) = replace_steps s"
  by (induction s) (simp_all add: replace_steps_def)

lemma set_replace_steps: "set (replace_steps s) \<subseteq> insert CHR '' '' (set s)"
  by (induction s) (auto simp add: replace_steps_def)

lemma replace_steps_unchanged:
  "\<forall>c \<in> set s. c \<notin> {CHR ''-'', CHR ''.'', CHR '','', CHR 0x27} \<Longrightarrow> replace_steps s = s"
  by (induction s) (simp_all add: replace_steps_def)

lemma length_replace_steps:
  "length (replace_steps s) = length (filter (\<lambda>c. c \<notin> {CHR ''.'', CHR '','', CHR 0x27}) s)"
  by (induction s) (simp_all add: replace_steps_def)

text \<open>The lowering of the ASCII letters.\<close>

lemma of_char_lower_char:
  "(of_char (lower_char c) :: nat) =
     (let n = of_char c in if 65 \<le> n \<and> n \<le> 90 then n + 32 else n)"
  by (simp add: lower_char_def Let_def)

lemma lower_char_idem: "lower_char (lower_char c) = lower_char c"
proof -
  have "(of_char (lower_char (lower_char c)) :: nat) = of_char (lower_char c)"
    by (simp add: of_char_lower_char Let_def)
  then show ?thesis by simp
qed

lemma lower_char_fixed:
  "\<not> (65 \<le> (of_char c :: nat) \<and> (of_char c :: nat) \<le> 90) \<Longrightarrow> lower_char c = c"
  by (auto simp add: lower_char_def Let_def)

lemma lower_char_ascii: "(of_char c :: nat) < 128 \<Longrightarrow> (of_char (lower_char c) :: nat) < 128"
  by (simp add: of_char_lower_char Let_def)

lemma is_ascii_ascii_lower: "is_ascii s \<Longrightarrow> is_ascii (ascii_lower s)"
  by (simp add: is_ascii_def ascii_lower_def list_all_iff lower_char_ascii)

lemma is_ascii_replace_steps: "is_ascii s \<Longrightarrow> is_ascii (replace_steps s)"
proof -
  assume "is_ascii s"
  moreover have "(of_char CHR '' '' :: nat) < 128" by simp
  ultimately show ?thesis
    using set_replace_steps [of s] by (auto simp add: is_ascii_def list_all_iff)
qed

lemma ascii_lower_idem: "ascii_lower (ascii_lower s) = ascii_lower s"
  by (simp add: ascii_lower_def lower_char_idem)

lemma ascii_lower_fixed_iff: "ascii_lower t = t \<longleftrightarrow> (\<forall>c \<in> set t. lower_char c = c)"
  by (induction t) (simp_all add: ascii_lower_def)

lemma ascii_lower_replace_steps:
  assumes "ascii_lower t = t"
  shows "ascii_lower (replace_steps t) = replace_steps t"
proof -
  have "lower_char CHR '' '' = CHR '' ''"
    by (simp add: lower_char_fixed)
  with assms show ?thesis
    using set_replace_steps [of t] by (auto simp add: ascii_lower_fixed_iff)
qed

lemma lower_on_ascii_ascii_lower: "lower_on_ascii ascii_lower"
  by (simp add: lower_on_ascii_def)

lemma lower_idempotent_ascii_lower: "lower_idempotent ascii_lower"
  by (simp add: lower_idempotent_def ascii_lower_idem)

lemma lower_keeps_fixed_ascii_lower: "lower_keeps_fixed ascii_lower"
  by (simp add: lower_keeps_fixed_def ascii_lower_replace_steps)

lemma normalize_spec_ascii:
  "lower_on_ascii lower \<Longrightarrow> is_ascii s \<Longrightarrow> normalize_spec lower s = normalize_spec ascii_lower s"
  by (simp add: normalize_spec_def lower_on_ascii_def)

lemma normalize_spec_twice:
  assumes "lower (lower s) = lower s"
    and "lower (replace_steps (lower s)) = replace_steps (lower s)"
  shows "normalize_spec lower (normalize_spec lower s) = normalize_spec lower s"
  using assms by (simp add: normalize_spec_def replace_steps_idem)

text \<open>
  C7. \<open>clean_name\<close> on a string is the steps of the specification in their order: the
  string is lowercased by \<open>str.lower\<close>, then each hyphen is replaced with a space, then
  the periods, the commas and the apostrophes are removed. Nothing else is removed (the
  result is as long as the lowercased string without its periods, commas and
  apostrophes), so whitespace is neither collapsed nor trimmed, and a string that
  lowering leaves as it is and that has no hyphen, period, comma or apostrophe is
  returned as it is. With \<open>str.lower\<close> lowering the ASCII letters, \<open>McDonald's-Group.\<close>
  and \<open>mcdonalds group\<close> both normalize to \<open>mcdonalds group\<close>.
\<close>

theorem clean_name_steps:
  "clean_name lower (Some s) = Inr (normalize_spec lower s)
   \<and> normalize_spec lower s
       = filter (\<lambda>c. c \<noteq> CHR 0x27)
           (filter (\<lambda>c. c \<noteq> CHR '','')
              (filter (\<lambda>c. c \<noteq> CHR ''.'')
                 (map (\<lambda>c. if c = CHR ''-'' then CHR '' '' else c) (lower s))))
   \<and> length (normalize_spec lower s)
       = length (filter (\<lambda>c. c \<notin> {CHR ''.'', CHR '','', CHR 0x27}) (lower s))
   \<and> (lower s = s \<and> (\<forall>c \<in> set s. c \<notin> {CHR ''-'', CHR ''.'', CHR '','', CHR 0x27})
        \<longrightarrow> clean_name lower (Some s) = Inr s)
   \<and> (lower_on_ascii lower
        \<longrightarrow> clean_name lower (Some ''McDonald's-Group.'') = Inr ''mcdonalds group''
            \<and> clean_name lower (Some ''mcdonalds group'') = Inr ''mcdonalds group'')"
proof (intro conjI impI)
  show "clean_name lower (Some s) = Inr (normalize_spec lower s)"
    by (rule clean_name_Some)
  show "normalize_spec lower s
       = filter (\<lambda>c. c \<noteq> CHR 0x27)
           (filter (\<lambda>c. c \<noteq> CHR '','')
              (filter (\<lambda>c. c \<noteq> CHR ''.'')
                 (map (\<lambda>c. if c = CHR ''-'' then CHR '' '' else c) (lower s))))"
    by (simp only: normalize_spec_def replace_steps_def)
  show "length (normalize_spec lower s)
       = length (filter (\<lambda>c. c \<notin> {CHR ''.'', CHR '','', CHR 0x27}) (lower s))"
    by (simp only: normalize_spec_def length_replace_steps)
  show "clean_name lower (Some s) = Inr s"
    if "lower s = s \<and> (\<forall>c \<in> set s. c \<notin> {CHR ''-'', CHR ''.'', CHR '','', CHR 0x27})"
    using that by (simp add: clean_name_Some normalize_spec_def replace_steps_unchanged
        del: clean_name.simps(2))
  assume a: "lower_on_ascii lower"
  have m: "is_ascii ''McDonald's-Group.''" and g: "is_ascii ''mcdonalds group''"
    by code_simp+
  have "normalize_spec ascii_lower ''McDonald's-Group.'' = ''mcdonalds group''"
    by code_simp
  with a m show "clean_name lower (Some ''McDonald's-Group.'') = Inr ''mcdonalds group''"
    by (simp only: clean_name_Some normalize_spec_ascii)
  have "normalize_spec ascii_lower ''mcdonalds group'' = ''mcdonalds group''"
    by code_simp
  with a g show "clean_name lower (Some ''mcdonalds group'') = Inr ''mcdonalds group''"
    by (simp only: clean_name_Some normalize_spec_ascii)
qed

theorem clean_name_steps_witness:
  "clean_name ascii_lower (Some ''ali  hassan '') = Inr ''ali  hassan ''
   \<and> clean_name ascii_lower (Some '' O'Neil-Smith, Jr. '') = Inr '' oneil smith jr ''
   \<and> clean_name ascii_lower (Some ''McDonald's-Group.'') = Inr ''mcdonalds group''
   \<and> clean_name ascii_lower (Some ''mcdonalds group'') = Inr ''mcdonalds group''"
proof -
  have h: "ascii_lower ''ali  hassan '' = ''ali  hassan ''
      \<and> (\<forall>c \<in> set ''ali  hassan ''. c \<notin> {CHR ''-'', CHR ''.'', CHR '','', CHR 0x27})"
    by code_simp
  have e: "normalize_spec ascii_lower '' O'Neil-Smith, Jr. '' = '' oneil smith jr ''"
    by code_simp
  have a: "clean_name ascii_lower (Some ''ali  hassan '') = Inr ''ali  hassan ''"
    using h clean_name_steps [of ascii_lower "''ali  hassan ''"] by blast
  have b: "clean_name ascii_lower (Some '' O'Neil-Smith, Jr. '')
      = Inr (normalize_spec ascii_lower '' O'Neil-Smith, Jr. '')"
    using clean_name_steps [of ascii_lower "'' O'Neil-Smith, Jr. ''"] by blast
  have c: "clean_name ascii_lower (Some ''McDonald's-Group.'') = Inr ''mcdonalds group''
      \<and> clean_name ascii_lower (Some ''mcdonalds group'') = Inr ''mcdonalds group''"
    using lower_on_ascii_ascii_lower clean_name_steps [of ascii_lower] by blast
  show ?thesis
    using a b c e by (simp only: simp_thms)
qed

text \<open>
  C8. \<open>clean_name\<close> is idempotent: normalizing the normalized string gives the
  normalized string again. It holds for every string when lowering a lowered string
  changes nothing and a string that lowering leaves as it is stays so under the four
  replacements, and for every ASCII string when \<open>str.lower\<close> lowers the ASCII letters.
\<close>

theorem clean_name_idempotent:
  "(lower_idempotent lower \<and> lower_keeps_fixed lower
      \<longrightarrow> bind_err (clean_name lower (Some s)) (\<lambda>t. clean_name lower (Some t))
          = clean_name lower (Some s))
   \<and> (lower_on_ascii lower \<and> is_ascii s
      \<longrightarrow> bind_err (clean_name lower (Some s)) (\<lambda>t. clean_name lower (Some t))
          = clean_name lower (Some s))"
proof (intro conjI impI)
  assume "lower_idempotent lower \<and> lower_keeps_fixed lower"
  then have "lower (lower s) = lower s"
    and "lower (replace_steps (lower s)) = replace_steps (lower s)"
    by (simp_all add: lower_idempotent_def lower_keeps_fixed_def)
  then have "normalize_spec lower (normalize_spec lower s) = normalize_spec lower s"
    by (rule normalize_spec_twice)
  then show "bind_err (clean_name lower (Some s)) (\<lambda>t. clean_name lower (Some t))
          = clean_name lower (Some s)"
    by (simp only: clean_name_Some bind_err_simps)
next
  assume a: "lower_on_ascii lower \<and> is_ascii s"
  then have l: "lower s = ascii_lower s"
    by (simp add: lower_on_ascii_def)
  from a have "is_ascii (replace_steps (ascii_lower s))"
    by (simp add: is_ascii_ascii_lower is_ascii_replace_steps)
  with a have r: "lower (replace_steps (lower s)) = replace_steps (lower s)"
    by (simp add: l lower_on_ascii_def ascii_lower_replace_steps ascii_lower_idem)
  from a have "is_ascii (ascii_lower s)"
    by (simp add: is_ascii_ascii_lower)
  with a have "lower (lower s) = lower s"
    by (simp add: l lower_on_ascii_def ascii_lower_idem)
  then have "normalize_spec lower (normalize_spec lower s) = normalize_spec lower s"
    using r by (rule normalize_spec_twice)
  then show "bind_err (clean_name lower (Some s)) (\<lambda>t. clean_name lower (Some t))
          = clean_name lower (Some s)"
    by (simp only: clean_name_Some bind_err_simps)
qed

theorem clean_name_idempotent_witness:
  "clean_name ascii_lower (Some ''McDonald's-Group.'') = Inr ''mcdonalds group''
   \<and> bind_err (clean_name ascii_lower (Some ''McDonald's-Group.''))
        (\<lambda>t. clean_name ascii_lower (Some t)) = Inr ''mcdonalds group''"
proof -
  have e: "clean_name ascii_lower (Some ''McDonald's-Group.'') = Inr ''mcdonalds group''"
    by code_simp
  have "is_ascii ''McDonald's-Group.''"
    by code_simp
  then have "bind_err (clean_name ascii_lower (Some ''McDonald's-Group.''))
        (\<lambda>t. clean_name ascii_lower (Some t)) = clean_name ascii_lower (Some ''McDonald's-Group.'')"
    using clean_name_idempotent [of ascii_lower "''McDonald's-Group.''"]
      lower_idempotent_ascii_lower lower_keeps_fixed_ascii_lower by blast
  with e show ?thesis by (simp only: simp_thms)
qed

section \<open>The loops of the matching engine in closed form\<close>

lemma for_each_append:
  assumes "\<And>x acc. body x acc = (if ok x then Inr (acc @ out x) else Inl err)"
  shows "for_each xs body acc
         = (if \<forall>x \<in> set xs. ok x then Inr (acc @ concat (map out xs)) else Inl err)"
  by (induction xs arbitrary: acc) (simp_all add: assms)

lemma get_name_matches_eq:
  "get_name_matches lower (l, r)
   = (if aliases_have_values r then Inr (name_rules lower l r) else Inl AttributeError)"
proof -
  have loop: "for_each (aliases r)
          (\<lambda>alias matches.
             bind_err (clean_name lower (Some (name l))) (\<lambda>gbr_clean.
             bind_err (clean_name lower (alias_value alias)) (\<lambda>alias_clean.
             Inr (if gbr_clean = alias_clean
                  then matches @ [NameToAlias (name l) (alias_value alias)]
                  else matches)))) acc
     = (if \<forall>a \<in> set (aliases r). alias_value a \<noteq> None
        then Inr (acc @ concat (map (\<lambda>a. case alias_value a of
                           None \<Rightarrow> []
                         | Some v \<Rightarrow> if normalize_spec lower (name l) = normalize_spec lower v
                                     then [NameToAlias (name l) (Some v)] else [])
                   (aliases r)))
        else Inl AttributeError)" for acc
    by (rule for_each_append)
       (simp add: clean_name_Some del: clean_name.simps(2) split: option.splits)
  show ?thesis
    unfolding get_name_matches_def prod.case loop
    by (simp add: clean_name_Some name_rules_def aliases_have_values_def list_all_iff
          del: clean_name.simps(2))
qed

lemma get_alias_matches_eq:
  "get_alias_matches lower (l, r)
   = (if aliases_have_values l \<and> (aliases l = [] \<or> aliases_have_values r)
      then Inr (alias_rules lower l r) else Inl AttributeError)"
proof -
  have inner: "for_each (aliases r)
               (\<lambda>ofac_alias matches.
                  bind_err (clean_name lower (alias_value gbr_alias)) (\<lambda>gbr_clean.
                  bind_err (clean_name lower (alias_value ofac_alias)) (\<lambda>alias_clean.
                  Inr (if gbr_clean = alias_clean
                       then matches @ [AliasToAlias (alias_value gbr_alias) (alias_value ofac_alias)]
                       else matches)))) acc
     = (if \<forall>a \<in> set (aliases r). alias_value gbr_alias \<noteq> None \<and> alias_value a \<noteq> None
        then Inr (acc @ concat (map (\<lambda>ra. case alias_value ra of
                                       None \<Rightarrow> []
                                     | Some rv \<Rightarrow>
                                         if map_option (normalize_spec lower) (alias_value gbr_alias)
                                            = Some (normalize_spec lower rv)
                                         then [AliasToAlias (alias_value gbr_alias) (Some rv)]
                                         else [])
                                   (aliases r)))
        else Inl AttributeError)" for acc gbr_alias
    by (cases "alias_value gbr_alias"; rule for_each_append)
       (auto simp add: clean_name_Some simp del: clean_name.simps(2) split: option.splits)
  have outer: "for_each (aliases l)
          (\<lambda>gbr_alias matches.
             bind_err (clean_name lower (alias_value gbr_alias)) (\<lambda>gbr_clean.
             bind_err (clean_name lower (Some (name r))) (\<lambda>ofac_clean.
             for_each (aliases r)
               (\<lambda>ofac_alias matches.
                  bind_err (clean_name lower (alias_value gbr_alias)) (\<lambda>gbr_clean.
                  bind_err (clean_name lower (alias_value ofac_alias)) (\<lambda>alias_clean.
                  Inr (if gbr_clean = alias_clean
                       then matches @ [AliasToAlias (alias_value gbr_alias) (alias_value ofac_alias)]
                       else matches))))
               (if gbr_clean = ofac_clean
                then matches @ [AliasToName (alias_value gbr_alias) (name r)]
                else matches)))) acc
     = (if \<forall>a \<in> set (aliases l). alias_value a \<noteq> None \<and> aliases_have_values r
        then Inr (acc @ concat (map (\<lambda>la. case alias_value la of
                          None \<Rightarrow> []
                        | Some lv \<Rightarrow>
                            (if normalize_spec lower lv = normalize_spec lower (name r)
                             then [AliasToName (Some lv) (name r)] else [])
                            @ concat (map (\<lambda>ra. case alias_value ra of
                                                   None \<Rightarrow> []
                                                 | Some rv \<Rightarrow>
                                                     if normalize_spec lower lv = normalize_spec lower rv
                                                     then [AliasToAlias (Some lv) (Some rv)]
                                                     else [])
                                          (aliases r)))
                 (aliases l)))
        else Inl AttributeError)" for acc
    unfolding inner
    apply (rule for_each_append)
    subgoal for a acc
      by (cases "alias_value a")
         (simp_all add: clean_name_Some aliases_have_values_def list_all_iff
            del: clean_name.simps(2) cong: option.case_cong if_cong)
    done
  have cond: "(\<forall>a \<in> set (aliases l). alias_value a \<noteq> None \<and> aliases_have_values r)
      \<longleftrightarrow> aliases_have_values l \<and> (aliases l = [] \<or> aliases_have_values r)"
    by (cases "aliases l") (auto simp add: aliases_have_values_def list_all_iff)
  show ?thesis
    unfolding get_alias_matches_def prod.case outer cond
    by (simp add: alias_rules_def)
qed

lemma fold_id_inner:
  "fold (\<lambda>ofac_id matches.
           if idn_value li = idn_value ofac_id
           then matches @ [IdentifierMatch (idn_value li) (idn_comment li)
                             (idn_value ofac_id) (idn_comment ofac_id)]
           else matches) rs acc
   = acc @ concat (map (\<lambda>ri. if idn_value li = idn_value ri
                              then [IdentifierMatch (idn_value li) (idn_comment li)
                                      (idn_value ri) (idn_comment ri)]
                              else []) rs)"
  by (induction rs arbitrary: acc) simp_all

lemma fold_id_outer:
  "fold (\<lambda>gbr_id matches.
           fold (\<lambda>ofac_id matches.
                   if idn_value gbr_id = idn_value ofac_id
                   then matches @ [IdentifierMatch (idn_value gbr_id) (idn_comment gbr_id)
                                     (idn_value ofac_id) (idn_comment ofac_id)]
                   else matches) rs matches) ls acc
   = acc @ concat (map (\<lambda>li. concat (map (\<lambda>ri. if idn_value li = idn_value ri
                              then [IdentifierMatch (idn_value li) (idn_comment li)
                                      (idn_value ri) (idn_comment ri)]
                              else []) rs)) ls)"
  by (induction ls arbitrary: acc) (simp_all add: fold_id_inner)

lemma get_id_matches_eq: "get_id_matches (l, r) = identifier_rules l r"
  by (simp add: get_id_matches_def identifier_rules_def fold_id_outer)

lemma get_all_matches_eq:
  "get_all_matches lower (l, r)
   = (if aliases_have_values l \<and> aliases_have_values r
      then Inr \<lparr>gbr_id = rec_id l, ofac_id = rec_id r,
                matches = name_rules lower l r @ alias_rules lower l r @ identifier_rules l r\<rparr>
      else Inl AttributeError)"
  by (auto simp add: get_all_matches_def get_name_matches_eq get_alias_matches_eq
        get_id_matches_eq Let_def aliases_have_values_def)

section \<open>Properties of the deduplicator and of the pipeline\<close>

lemma set_drop_seen: "set (drop_seen seen xs) = set xs - set seen"
  by (induction xs arbitrary: seen) auto

lemma distinct_drop_seen: "distinct (drop_seen seen xs)"
  by (induction xs arbitrary: seen) (simp_all add: set_drop_seen)

lemma subseq_drop_seen: "subseq (drop_seen seen xs) xs"
  by (induction xs arbitrary: seen) (auto intro: list_emb_Cons)

lemma drop_seen_index:
  "drop_seen seen xs
   = map ((!) xs)
       (filter (\<lambda>i. xs ! i \<notin> set seen \<and> xs ! i \<notin> set (take i xs)) [0..<length xs])"
proof (induction xs arbitrary: seen)
  case Nil
  then show ?case by simp
next
  case (Cons x xs)
  have upt: "[0..<length (x # xs)] = 0 # map Suc [0..<length xs]"
    by (simp add: upt_conv_Cons map_Suc_upt del: upt_Suc)
  show ?case
  proof (cases "x \<in> set seen")
    case True
    then have "\<And>i. ((x # xs) ! Suc i \<notin> set seen \<and> (x # xs) ! Suc i \<notin> set (take (Suc i) (x # xs)))
        = (xs ! i \<notin> set seen \<and> xs ! i \<notin> set (take i xs))"
      by auto
    with True show ?thesis
      unfolding upt by (simp add: Cons.IH filter_map comp_def)
  next
    case False
    then have "\<And>i. ((x # xs) ! Suc i \<notin> set seen \<and> (x # xs) ! Suc i \<notin> set (take (Suc i) (x # xs)))
        = (xs ! i \<notin> set (x # seen) \<and> xs ! i \<notin> set (take i xs))"
      by auto
    with False show ?thesis
      unfolding upt by (simp add: Cons.IH filter_map comp_def)
  qed
qed

lemma filter_drop_seen:
  "filter P (drop_seen seen xs) = drop_seen (filter P seen) (filter P xs)"
  by (induction xs arbitrary: seen) auto

lemma filter_series_drop_duplicates:
  "filter P (series_drop_duplicates xs) = series_drop_duplicates (filter P xs)"
  using filter_drop_seen [of P "[]" xs] by (simp add: series_drop_duplicates_def)

lemma matches_drop_duplicates:
  "matches (drop_duplicates r) = series_drop_duplicates (matches r)"
  by (simp add: drop_duplicates_def Let_def)

text \<open>
  C3. \<open>drop_duplicates\<close> keeps of the matches exactly the entries that are equal to no
  earlier entry, in their order: the result is the list of first occurrences, it has no
  repetition, the same elements as the input, and is a subsequence of it. From
  \<open>[a, b, a, c]\<close> with \<open>a\<close>, \<open>b\<close>, \<open>c\<close> distinct it keeps \<open>[a, b, c]\<close>.
\<close>

theorem drop_duplicates_keeps_first:
  "matches (drop_duplicates r)
     = map ((!) (matches r))
         (filter (\<lambda>i. matches r ! i \<notin> set (take i (matches r))) [0..<length (matches r)])
   \<and> distinct (matches (drop_duplicates r))
   \<and> set (matches (drop_duplicates r)) = set (matches r)
   \<and> subseq (matches (drop_duplicates r)) (matches r)
   \<and> (matches r = [a, b, a, c] \<and> distinct [a, b, c]
        \<longrightarrow> matches (drop_duplicates r) = [a, b, c])"
proof (intro conjI impI)
  show "matches (drop_duplicates r)
     = map ((!) (matches r))
         (filter (\<lambda>i. matches r ! i \<notin> set (take i (matches r))) [0..<length (matches r)])"
    using drop_seen_index [of "[]" "matches r"]
    by (simp add: matches_drop_duplicates series_drop_duplicates_def)
  show "distinct (matches (drop_duplicates r))"
    by (simp add: matches_drop_duplicates series_drop_duplicates_def distinct_drop_seen)
  show "set (matches (drop_duplicates r)) = set (matches r)"
    by (simp add: matches_drop_duplicates series_drop_duplicates_def set_drop_seen)
  show "subseq (matches (drop_duplicates r)) (matches r)"
    by (simp add: matches_drop_duplicates series_drop_duplicates_def subseq_drop_seen)
  show "matches (drop_duplicates r) = [a, b, c]"
    if "matches r = [a, b, a, c] \<and> distinct [a, b, c]"
    using that by (auto simp add: matches_drop_duplicates series_drop_duplicates_def)
qed

theorem drop_duplicates_keeps_first_witness:
  "matches \<lparr>gbr_id = 1, ofac_id = 9,
            matches = [NameToName ''Ali Hassan'' ''ali hassan'',
                       NameToAlias ''Ali Hassan'' (Some ''A. Hassan''),
                       NameToName ''Ali Hassan'' ''ali hassan'',
                       IdentifierMatch (Some ''X1'') (Some ''passport'') (Some ''X1'') (Some ''reg'')]\<rparr>
     = [NameToName ''Ali Hassan'' ''ali hassan'',
        NameToAlias ''Ali Hassan'' (Some ''A. Hassan''),
        NameToName ''Ali Hassan'' ''ali hassan'',
        IdentifierMatch (Some ''X1'') (Some ''passport'') (Some ''X1'') (Some ''reg'')]
   \<and> distinct [NameToName ''Ali Hassan'' ''ali hassan'',
                NameToAlias ''Ali Hassan'' (Some ''A. Hassan''),
                IdentifierMatch (Some ''X1'') (Some ''passport'') (Some ''X1'') (Some ''reg'')]
   \<and> matches (drop_duplicates
        \<lparr>gbr_id = 1, ofac_id = 9,
         matches = [NameToName ''Ali Hassan'' ''ali hassan'',
                    NameToAlias ''Ali Hassan'' (Some ''A. Hassan''),
                    NameToName ''Ali Hassan'' ''ali hassan'',
                    IdentifierMatch (Some ''X1'') (Some ''passport'') (Some ''X1'') (Some ''reg'')]\<rparr>)
     = [NameToName ''Ali Hassan'' ''ali hassan'',
        NameToAlias ''Ali Hassan'' (Some ''A. Hassan''),
        IdentifierMatch (Some ''X1'') (Some ''passport'') (Some ''X1'') (Some ''reg'')]"
  using drop_duplicates_keeps_first
    [of "\<lparr>gbr_id = 1, ofac_id = 9,
         matches = [NameToName ''Ali Hassan'' ''ali hassan'',
                    NameToAlias ''Ali Hassan'' (Some ''A. Hassan''),
                    NameToName ''Ali Hassan'' ''ali hassan'',
                    IdentifierMatch (Some ''X1'') (Some ''passport'') (Some ''X1'') (Some ''reg'')]\<rparr>"
        "NameToName ''Ali Hassan'' ''ali hassan''"
        "NameToAlias ''Ali Hassan'' (Some ''A. Hassan'')"
        "IdentifierMatch (Some ''X1'') (Some ''passport'') (Some ''X1'') (Some ''reg'')"]
  by simp

text \<open>
  C10. \<open>drop_duplicates\<close> returns \<open>gbr_id\<close> and \<open>ofac_id\<close> as it received them; the
  record it returns differs from its input in the \<open>matches\<close> field only.
\<close>

theorem drop_duplicates_frame:
  "gbr_id (drop_duplicates r) = gbr_id r
   \<and> ofac_id (drop_duplicates r) = ofac_id r
   \<and> drop_duplicates r = r\<lparr>matches := series_drop_duplicates (matches r)\<rparr>"
  by (simp add: drop_duplicates_def Let_def)

lemma rdd_map_Inr:
  "rdd_map f xs = Inr ys \<Longrightarrow> length ys = length xs \<and> (\<forall>i < length xs. f (xs ! i) = Inr (ys ! i))"
proof (induction xs arbitrary: ys)
  case Nil
  then show ?case by simp
next
  case (Cons x xs)
  then show ?case
    by (auto simp add: bind_err_def nth_Cons split: sum.splits nat.splits)
qed

lemma run_Inr:
  assumes "run lower gbr ofac = Inr out"
  obtains all where "rdd_map (get_all_matches lower) (cartesian gbr ofac) = Inr all"
    and "out = map drop_duplicates (filter (\<lambda>output_record. matches output_record \<noteq> []) all)"
  using assms by (auto simp add: run_def Let_def bind_err_def split: sum.splits)

lemma run_nonempty:
  assumes "run lower gbr ofac = Inr out" and "p \<in> set out"
  shows "matches p \<noteq> []"
proof -
  from assms(1) obtain all where
    out: "out = map drop_duplicates (filter (\<lambda>output_record. matches output_record \<noteq> []) all)"
    by (rule run_Inr)
  with assms(2) obtain q where q: "matches q \<noteq> []" "p = drop_duplicates q"
    by auto
  have "set (matches p) = set (matches q)"
    by (simp add: q(2) matches_drop_duplicates series_drop_duplicates_def set_drop_seen)
  with q(1) show ?thesis by auto
qed

text \<open>
  C9. Every record in the output of the pipeline has a non-empty \<open>matches\<close> list.
\<close>

theorem run_matches_nonempty:
  "run lower gbr ofac = Inr out \<longrightarrow> (\<forall>p \<in> set out. matches p \<noteq> [])"
  using run_nonempty by blast

theorem run_matches_nonempty_witness:
  "run ascii_lower [gbr_example, gbr_alias_example] [ofac_example]
     = Inr [\<lparr>gbr_id = 1, ofac_id = 9,
             matches = [NameToName ''Ali Hassan'' ''ali hassan'',
                        IdentifierMatch (Some ''X1'') (Some ''passport'')
                          (Some ''X1'') (Some ''reg'')]\<rparr>,
            \<lparr>gbr_id = 1, ofac_id = 9,
             matches = [NameToName ''Ali Hassan'' ''ali hassan'',
                        IdentifierMatch (Some ''X1'') (Some ''passport'')
                          (Some ''X1'') (Some ''reg'')]\<rparr>]
   \<and> matches \<lparr>gbr_id = 1, ofac_id = 9,
              matches = [NameToName ''Ali Hassan'' ''ali hassan'',
                         IdentifierMatch (Some ''X1'') (Some ''passport'')
                           (Some ''X1'') (Some ''reg'')]\<rparr> \<noteq> []
   \<and> run ascii_lower [gbr_example] [ofac_example\<lparr>name := ''John Smith'', id_numbers := []\<rparr>] = Inr []"
proof -
  have r: "run ascii_lower [gbr_example, gbr_alias_example] [ofac_example]
     = Inr [\<lparr>gbr_id = 1, ofac_id = 9,
             matches = [NameToName ''Ali Hassan'' ''ali hassan'',
                        IdentifierMatch (Some ''X1'') (Some ''passport'')
                          (Some ''X1'') (Some ''reg'')]\<rparr>,
            \<lparr>gbr_id = 1, ofac_id = 9,
             matches = [NameToName ''Ali Hassan'' ''ali hassan'',
                        IdentifierMatch (Some ''X1'') (Some ''passport'')
                          (Some ''X1'') (Some ''reg'')]\<rparr>]"
    by code_simp
  have e: "run ascii_lower [gbr_example] [ofac_example\<lparr>name := ''John Smith'', id_numbers := []\<rparr>] = Inr []"
    by code_simp
  show ?thesis
    using run_matches_nonempty
      [of ascii_lower "[gbr_example, gbr_alias_example]" "[ofac_example]"
          "[\<lparr>gbr_id = 1, ofac_id = 9,
             matches = [NameToName ''Ali Hassan'' ''ali hassan'',
                        IdentifierMatch (Some ''X1'') (Some ''passport'')
                          (Some ''X1'') (Some ''reg'')]\<rparr>,
            \<lparr>gbr_id = 1, ofac_id = 9,
             matches = [NameToName ''Ali Hassan'' ''ali hassan'',
                        IdentifierMatch (Some ''X1'') (Some ''passport'')
                          (Some ''X1'') (Some ''reg'')]\<rparr>]"]
      r e
    by simp
qed

section \<open>Properties of the matching engine\<close>

lemma identifier_rules_product:
  "identifier_rules l r
   = map (\<lambda>(li, ri). IdentifierMatch (idn_value li) (idn_comment li)
                        (idn_value ri) (idn_comment ri))
       (filter (\<lambda>(li, ri). idn_value li = idn_value ri)
          (List.product (id_numbers l) (id_numbers r)))"
proof -
  have inner: "concat (map (\<lambda>ri. if idn_value li = idn_value ri
                                  then [IdentifierMatch (idn_value li) (idn_comment li)
                                          (idn_value ri) (idn_comment ri)]
                                  else []) rs)
      = map (\<lambda>(li, ri). IdentifierMatch (idn_value li) (idn_comment li)
                           (idn_value ri) (idn_comment ri))
          (filter (\<lambda>(li, ri). idn_value li = idn_value ri) (map (Pair li) rs))" for li rs
    by (induction rs) simp_all
  have outer: "concat (map (\<lambda>li. map f (filter P (map (Pair li) rs))) ls)
      = map f (filter P (List.product ls rs))" for f :: "IDNumber \<times> IDNumber \<Rightarrow> match_record"
      and P ls rs
    by (induction ls) simp_all
  show ?thesis
    unfolding identifier_rules_def inner by (rule outer)
qed

lemma no_identifier_in_name_rules: "filter is_identifier_match (name_rules lower l r) = []"
  by (auto simp add: name_rules_def filter_empty_conv split: option.splits if_splits)

lemma no_identifier_in_alias_rules: "filter is_identifier_match (alias_rules lower l r) = []"
  by (auto simp add: alias_rules_def filter_empty_conv split: option.splits if_splits)

lemma all_identifier_rules: "filter is_identifier_match (identifier_rules l r) = identifier_rules l r"
  by (auto simp add: identifier_rules_def filter_id_conv split: if_splits)

lemma mset_concat_map_append:
  "mset (concat (map (\<lambda>x. f x @ g x) xs)) = mset (concat (map f xs)) + mset (concat (map g xs))"
  by (induction xs) simp_all

lemma mset_concat_swap:
  "mset (concat (map (\<lambda>a. concat (map (\<lambda>b. g a b) ys)) xs))
   = mset (concat (map (\<lambda>b. concat (map (\<lambda>a. g a b) xs)) ys))"
proof (induction xs)
  case Nil
  show ?case by (induction ys) simp_all
next
  case (Cons x xs)
  have "mset (concat (map (\<lambda>b. concat (map (\<lambda>a. g a b) (x # xs))) ys))
      = mset (concat (map (\<lambda>b. g x b @ concat (map (\<lambda>a. g a b) xs)) ys))"
    by simp
  also have "\<dots> = mset (concat (map (g x) ys))
      + mset (concat (map (\<lambda>b. concat (map (\<lambda>a. g a b) xs)) ys))"
    by (rule mset_concat_map_append)
  finally show ?case by (simp add: Cons.IH)
qed

lemma mset_alias_rules:
  "mset (alias_rules lower l r)
   = mset (alias_name_part lower l r)
     + mset (concat (map (\<lambda>la. concat (map (\<lambda>ra. alias_pair lower la ra) (aliases r))) (aliases l)))"
proof -
  have "alias_rules lower l r
      = concat (map (\<lambda>la. (case alias_value la of
                          None \<Rightarrow> []
                        | Some lv \<Rightarrow>
                            (if normalize_spec lower lv = normalize_spec lower (name r)
                             then [AliasToName (Some lv) (name r)] else []))
                         @ concat (map (\<lambda>ra. alias_pair lower la ra) (aliases r))) (aliases l))"
    unfolding alias_rules_def alias_pair_def
    by (rule arg_cong [where f = concat], rule map_cong [OF refl])
       (simp split: option.splits)
  then show ?thesis
    by (simp only: mset_concat_map_append alias_name_part_def)
qed

lemma mirror_alias_pair: "map mirror (alias_pair lower la ra) = alias_pair lower ra la"
  by (auto simp add: alias_pair_def split: option.splits)

lemma mirror_id_pair: "map mirror (id_pair li ri) = id_pair ri li"
  by (auto simp add: id_pair_def)

lemma map_mirror_concat:
  assumes "\<And>a. map mirror (f a) = g a"
  shows "map mirror (concat (map f xs)) = concat (map g xs)"
  by (induction xs) (simp_all add: assms)

lemma mset_mirror_pairs:
  assumes "\<And>a b. map mirror (g a b) = h b a"
  shows "image_mset mirror (mset (concat (map (\<lambda>a. concat (map (\<lambda>b. g a b) ys)) xs)))
         = mset (concat (map (\<lambda>b. concat (map (\<lambda>a. h b a) xs)) ys))"
proof -
  have "map mirror (concat (map (\<lambda>a. concat (map (\<lambda>b. g a b) ys)) xs))
      = concat (map (\<lambda>a. concat (map (\<lambda>b. h b a) ys)) xs)"
    by (intro map_mirror_concat assms)
  then have "image_mset mirror (mset (concat (map (\<lambda>a. concat (map (\<lambda>b. g a b) ys)) xs)))
      = mset (concat (map (\<lambda>a. concat (map (\<lambda>b. h b a) ys)) xs))"
    by (simp only: flip: mset_map)
  also have "\<dots> = mset (concat (map (\<lambda>b. concat (map (\<lambda>a. h b a) xs)) ys))"
    by (rule mset_concat_swap)
  finally show ?thesis .
qed

lemma mirror_name_rules:
  "map mirror (name_rules lower l r)
   = (if normalize_spec lower (name r) = normalize_spec lower (name l)
      then [NameToName (name r) (name l)] else []) @ alias_name_part lower r l"
proof -
  have "map mirror (concat (map (\<lambda>a. case alias_value a of
                           None \<Rightarrow> []
                         | Some v \<Rightarrow> if normalize_spec lower (name l) = normalize_spec lower v
                                     then [NameToAlias (name l) (Some v)] else [])
                   (aliases r))) = alias_name_part lower r l"
    unfolding alias_name_part_def
    by (rule map_mirror_concat) (auto split: option.splits)
  then show ?thesis
    by (auto simp add: name_rules_def)
qed

lemma mirror_alias_name_part:
  "(if normalize_spec lower (name l) = normalize_spec lower (name r)
      then [NameToName (name l) (name r)] else []) @ map mirror (alias_name_part lower r l)
   = name_rules lower l r"
proof -
  have "map mirror (alias_name_part lower r l)
      = concat (map (\<lambda>a. case alias_value a of
                           None \<Rightarrow> []
                         | Some v \<Rightarrow> if normalize_spec lower (name l) = normalize_spec lower v
                                     then [NameToAlias (name l) (Some v)] else [])
                   (aliases r))"
    unfolding alias_name_part_def
    by (rule map_mirror_concat) (auto split: option.splits)
  then show ?thesis
    by (simp add: name_rules_def)
qed

lemma mset_mirror_all_rules:
  "image_mset mirror (mset (name_rules lower l r @ alias_rules lower l r @ identifier_rules l r))
   = mset (name_rules lower r l @ alias_rules lower r l @ identifier_rules r l)"
proof -
  have ids: "identifier_rules x y
      = concat (map (\<lambda>li. concat (map (\<lambda>ri. id_pair li ri) (id_numbers y))) (id_numbers x))"
    for x y
    by (simp add: identifier_rules_def id_pair_def)
  have i: "image_mset mirror (mset (identifier_rules l r)) = mset (identifier_rules r l)"
    unfolding ids by (rule mset_mirror_pairs) (rule mirror_id_pair)
  have a: "image_mset mirror
        (mset (concat (map (\<lambda>la. concat (map (\<lambda>ra. alias_pair lower la ra) (aliases r))) (aliases l))))
      = mset (concat (map (\<lambda>ra. concat (map (\<lambda>la. alias_pair lower ra la) (aliases l))) (aliases r)))"
    by (rule mset_mirror_pairs) (rule mirror_alias_pair)
  have n1: "image_mset mirror (mset (name_rules lower l r))
      = mset (if normalize_spec lower (name r) = normalize_spec lower (name l)
              then [NameToName (name r) (name l)] else []) + mset (alias_name_part lower r l)"
    by (simp only: mirror_name_rules mset_append flip: mset_map)
  have n2: "mset (name_rules lower r l)
      = mset (if normalize_spec lower (name r) = normalize_spec lower (name l)
              then [NameToName (name r) (name l)] else [])
        + image_mset mirror (mset (alias_name_part lower l r))"
    by (simp only: mirror_alias_name_part [of lower r l, symmetric] mset_append mset_map)
  show ?thesis
    by (simp only: mset_append image_mset_union mset_alias_rules [of lower l r] mset_alias_rules [of lower r l]
          i a n1 n2 ac_simps)
qed

lemma mirror_mirror [simp]: "mirror (mirror m) = m"
  by (cases m) simp_all

lemma mirror_in_set:
  assumes "mset ys = image_mset mirror (mset xs)"
  shows "m \<in> set xs \<longleftrightarrow> mirror m \<in> set ys"
proof -
  have "set ys = mirror ` set xs"
    using assms by (metis set_image_mset set_mset_mset)
  moreover have "mirror m \<in> mirror ` set xs \<longleftrightarrow> m \<in> set xs"
    by (metis image_iff mirror_mirror)
  ultimately show ?thesis by simp
qed

text \<open>
  C4. \<open>get_all_matches\<close> returns exactly when the name rules and the alias rules
  return, and its matches are then their outputs followed by the identifier matches, in
  this order, under the ids of the two records. It returns exactly when every alias of
  both records has a string value, and its matches are then the matches of the
  specification's name rules, alias rules and identifier rules, in this order. For two
  records with the names \<open>Ali Hassan\<close> and \<open>ali hassan\<close>, the identifier \<open>X1\<close> on both
  sides and no aliases, with \<open>str.lower\<close> lowering the ASCII letters, the pipeline yields
  the one pair 1/9 with the name match before the identifier match.
\<close>

theorem get_all_matches_order:
  "(get_all_matches lower (l, r) = Inr out
      \<longrightarrow> (\<exists>name_matches alias_matches.
             get_name_matches lower (l, r) = Inr name_matches
             \<and> get_alias_matches lower (l, r) = Inr alias_matches
             \<and> matches out = name_matches @ alias_matches @ get_id_matches (l, r))
          \<and> gbr_id out = rec_id l \<and> ofac_id out = rec_id r
          \<and> matches out = name_rules lower l r @ alias_rules lower l r @ identifier_rules l r)
   \<and> (get_name_matches lower (l, r) = Inr name_matches
        \<and> get_alias_matches lower (l, r) = Inr alias_matches
      \<longrightarrow> get_all_matches lower (l, r)
           = Inr \<lparr>gbr_id = rec_id l, ofac_id = rec_id r,
                  matches = name_matches @ alias_matches @ get_id_matches (l, r)\<rparr>)
   \<and> (aliases_have_values l \<and> aliases_have_values r
      \<longrightarrow> get_all_matches lower (l, r)
           = Inr \<lparr>gbr_id = rec_id l, ofac_id = rec_id r,
                  matches = name_rules lower l r @ alias_rules lower l r @ identifier_rules l r\<rparr>)
   \<and> (lower_on_ascii lower
        \<and> rec_id l = 1 \<and> name l = ''Ali Hassan'' \<and> aliases l = []
        \<and> id_numbers l = [\<lparr>idn_value = Some ''X1'', idn_comment = Some ''passport''\<rparr>]
        \<and> rec_id r = 9 \<and> name r = ''ali hassan'' \<and> aliases r = []
        \<and> id_numbers r = [\<lparr>idn_value = Some ''X1'', idn_comment = Some ''reg''\<rparr>]
      \<longrightarrow> run lower [l] [r]
           = Inr [\<lparr>gbr_id = 1, ofac_id = 9,
                   matches = [NameToName ''Ali Hassan'' ''ali hassan'',
                              IdentifierMatch (Some ''X1'') (Some ''passport'')
                                (Some ''X1'') (Some ''reg'')]\<rparr>])"
proof (intro conjI impI)
  assume a: "get_all_matches lower (l, r) = Inr out"
  then show "\<exists>name_matches alias_matches.
             get_name_matches lower (l, r) = Inr name_matches
             \<and> get_alias_matches lower (l, r) = Inr alias_matches
             \<and> matches out = name_matches @ alias_matches @ get_id_matches (l, r)"
      and "gbr_id out = rec_id l" and "ofac_id out = rec_id r"
    by (auto simp add: get_all_matches_def bind_err_def Let_def split: sum.splits)
  from a show "matches out = name_rules lower l r @ alias_rules lower l r @ identifier_rules l r"
    by (auto simp add: get_all_matches_eq split: if_splits)
next
  assume "get_name_matches lower (l, r) = Inr name_matches
        \<and> get_alias_matches lower (l, r) = Inr alias_matches"
  then show "get_all_matches lower (l, r)
           = Inr \<lparr>gbr_id = rec_id l, ofac_id = rec_id r,
                  matches = name_matches @ alias_matches @ get_id_matches (l, r)\<rparr>"
    by (simp add: get_all_matches_def Let_def)
next
  assume "aliases_have_values l \<and> aliases_have_values r"
  then show "get_all_matches lower (l, r)
           = Inr \<lparr>gbr_id = rec_id l, ofac_id = rec_id r,
                  matches = name_rules lower l r @ alias_rules lower l r @ identifier_rules l r\<rparr>"
    by (simp add: get_all_matches_eq)
next
  assume ex: "lower_on_ascii lower
        \<and> rec_id l = 1 \<and> name l = ''Ali Hassan'' \<and> aliases l = []
        \<and> id_numbers l = [\<lparr>idn_value = Some ''X1'', idn_comment = Some ''passport''\<rparr>]
        \<and> rec_id r = 9 \<and> name r = ''ali hassan'' \<and> aliases r = []
        \<and> id_numbers r = [\<lparr>idn_value = Some ''X1'', idn_comment = Some ''reg''\<rparr>]"
  have "is_ascii ''Ali Hassan''" and "is_ascii ''ali hassan''"
    by code_simp+
  with ex have "normalize_spec lower ''Ali Hassan'' = normalize_spec ascii_lower ''Ali Hassan''"
    and "normalize_spec lower ''ali hassan'' = normalize_spec ascii_lower ''ali hassan''"
    by (simp_all add: normalize_spec_ascii)
  moreover have "normalize_spec ascii_lower ''Ali Hassan'' = normalize_spec ascii_lower ''ali hassan''"
    by code_simp
  ultimately have n: "normalize_spec lower ''Ali Hassan'' = normalize_spec lower ''ali hassan''"
    by simp
  from ex have "get_all_matches lower (l, r)
      = Inr \<lparr>gbr_id = 1, ofac_id = 9,
             matches = [NameToName ''Ali Hassan'' ''ali hassan'',
                        IdentifierMatch (Some ''X1'') (Some ''passport'')
                          (Some ''X1'') (Some ''reg'')]\<rparr>"
    by (simp add: get_all_matches_eq aliases_have_values_def name_rules_def alias_rules_def
          identifier_rules_def n)
  then show "run lower [l] [r]
           = Inr [\<lparr>gbr_id = 1, ofac_id = 9,
                   matches = [NameToName ''Ali Hassan'' ''ali hassan'',
                              IdentifierMatch (Some ''X1'') (Some ''passport'')
                                (Some ''X1'') (Some ''reg'')]\<rparr>]"
    by (simp add: run_def cartesian_def drop_duplicates_def series_drop_duplicates_def)
qed

theorem get_all_matches_order_witness:
  "get_all_matches ascii_lower (gbr_alias_example, ofac_alias_example)
     = Inr \<lparr>gbr_id = 1, ofac_id = 9,
            matches = [NameToAlias ''Ali Hassan'' (Some ''ALI HASSAN''),
                       AliasToName (Some ''Hassan, Ali'') ''hassan ali'',
                       IdentifierMatch (Some ''X1'') (Some ''passport'') (Some ''X1'') None]\<rparr>
   \<and> get_name_matches ascii_lower (gbr_alias_example, ofac_alias_example)
     = Inr [NameToAlias ''Ali Hassan'' (Some ''ALI HASSAN'')]
   \<and> get_alias_matches ascii_lower (gbr_alias_example, ofac_alias_example)
     = Inr [AliasToName (Some ''Hassan, Ali'') ''hassan ali'']
   \<and> get_id_matches (gbr_alias_example, ofac_alias_example)
     = [IdentifierMatch (Some ''X1'') (Some ''passport'') (Some ''X1'') None]
   \<and> run ascii_lower [gbr_example] [ofac_example]
     = Inr [\<lparr>gbr_id = 1, ofac_id = 9,
             matches = [NameToName ''Ali Hassan'' ''ali hassan'',
                        IdentifierMatch (Some ''X1'') (Some ''passport'')
                          (Some ''X1'') (Some ''reg'')]\<rparr>]"
proof -
  have n: "get_name_matches ascii_lower (gbr_alias_example, ofac_alias_example)
     = Inr [NameToAlias ''Ali Hassan'' (Some ''ALI HASSAN'')]"
    by code_simp
  have a: "get_alias_matches ascii_lower (gbr_alias_example, ofac_alias_example)
     = Inr [AliasToName (Some ''Hassan, Ali'') ''hassan ali'']"
    by code_simp
  have i: "get_id_matches (gbr_alias_example, ofac_alias_example)
     = [IdentifierMatch (Some ''X1'') (Some ''passport'') (Some ''X1'') None]"
    by code_simp
  have ids: "rec_id gbr_alias_example = 1" "rec_id ofac_alias_example = 9"
    by (simp_all add: gbr_alias_example_def ofac_alias_example_def)
  have g: "get_all_matches ascii_lower (gbr_alias_example, ofac_alias_example)
     = Inr \<lparr>gbr_id = 1, ofac_id = 9,
            matches = [NameToAlias ''Ali Hassan'' (Some ''ALI HASSAN''),
                       AliasToName (Some ''Hassan, Ali'') ''hassan ali'',
                       IdentifierMatch (Some ''X1'') (Some ''passport'') (Some ''X1'') None]\<rparr>"
    using get_all_matches_order
      [of ascii_lower gbr_alias_example ofac_alias_example _
          "[NameToAlias ''Ali Hassan'' (Some ''ALI HASSAN'')]"
          "[AliasToName (Some ''Hassan, Ali'') ''hassan ali'']",
        THEN conjunct2, THEN conjunct1]
      n a
    by (simp add: i ids)
  have h: "lower_on_ascii ascii_lower
        \<and> rec_id gbr_example = 1 \<and> name gbr_example = ''Ali Hassan'' \<and> aliases gbr_example = []
        \<and> id_numbers gbr_example = [\<lparr>idn_value = Some ''X1'', idn_comment = Some ''passport''\<rparr>]
        \<and> rec_id ofac_example = 9 \<and> name ofac_example = ''ali hassan'' \<and> aliases ofac_example = []
        \<and> id_numbers ofac_example = [\<lparr>idn_value = Some ''X1'', idn_comment = Some ''reg''\<rparr>]"
    by (simp add: gbr_example_def ofac_example_def lower_on_ascii_ascii_lower)
  have r: "run ascii_lower [gbr_example] [ofac_example]
     = Inr [\<lparr>gbr_id = 1, ofac_id = 9,
             matches = [NameToName ''Ali Hassan'' ''ali hassan'',
                        IdentifierMatch (Some ''X1'') (Some ''passport'')
                          (Some ''X1'') (Some ''reg'')]\<rparr>]"
    using h get_all_matches_order
      [of ascii_lower gbr_example ofac_example,
        THEN conjunct2, THEN conjunct2, THEN conjunct2]
    by (simp only: simp_thms)
  show ?thesis
    using g n a i r by (simp only: simp_thms)
qed

text \<open>
  C5. The identifier rule emits one \<open>IdentifierMatch\<close> for each pair of a left and a
  right identifier whose values are equal (compared as they are, not normalized), in
  the order of the pairs, and these are the identifier matches of \<open>get_all_matches\<close>;
  the identifier matches that \<open>drop_duplicates\<close> leaves in its output are their first
  occurrences. A left identifier \<open>A123\<close> against two right identifiers \<open>A123\<close> gives two
  entries, and of the two \<open>drop_duplicates\<close> keeps one when the two right comments are
  equal and both when they differ.
\<close>

theorem get_id_matches_pairs:
  "get_id_matches (l, r)
     = map (\<lambda>(li, ri). IdentifierMatch (idn_value li) (idn_comment li)
                          (idn_value ri) (idn_comment ri))
         (filter (\<lambda>(li, ri). idn_value li = idn_value ri)
            (List.product (id_numbers l) (id_numbers r)))
   \<and> (get_all_matches lower (l, r) = Inr out
        \<longrightarrow> filter is_identifier_match (matches out) = get_id_matches (l, r)
            \<and> filter is_identifier_match (matches (drop_duplicates out))
                = matches (drop_duplicates (out\<lparr>matches := get_id_matches (l, r)\<rparr>)))
   \<and> (id_numbers l = [\<lparr>idn_value = Some ''A123'', idn_comment = c\<rparr>]
        \<and> id_numbers r = [\<lparr>idn_value = Some ''A123'', idn_comment = c1\<rparr>,
                           \<lparr>idn_value = Some ''A123'', idn_comment = c2\<rparr>]
        \<longrightarrow> get_id_matches (l, r)
              = [IdentifierMatch (Some ''A123'') c (Some ''A123'') c1,
                 IdentifierMatch (Some ''A123'') c (Some ''A123'') c2]
            \<and> (get_all_matches lower (l, r) = Inr out
                \<longrightarrow> filter is_identifier_match (matches out)
                      = [IdentifierMatch (Some ''A123'') c (Some ''A123'') c1,
                         IdentifierMatch (Some ''A123'') c (Some ''A123'') c2]
                    \<and> filter is_identifier_match (matches (drop_duplicates out))
                      = (if c1 = c2
                         then [IdentifierMatch (Some ''A123'') c (Some ''A123'') c1]
                         else [IdentifierMatch (Some ''A123'') c (Some ''A123'') c1,
                               IdentifierMatch (Some ''A123'') c (Some ''A123'') c2])
                    \<and> (length (filter is_identifier_match (matches (drop_duplicates out))) = 1
                         \<longleftrightarrow> c1 = c2)))"
proof (intro conjI impI)
  show "get_id_matches (l, r)
     = map (\<lambda>(li, ri). IdentifierMatch (idn_value li) (idn_comment li)
                          (idn_value ri) (idn_comment ri))
         (filter (\<lambda>(li, ri). idn_value li = idn_value ri)
            (List.product (id_numbers l) (id_numbers r)))"
    by (simp only: get_id_matches_eq identifier_rules_product)
  have f: "filter is_identifier_match (matches out) = get_id_matches (l, r)"
    if "get_all_matches lower (l, r) = Inr out" for out
    using that
    by (auto simp add: get_all_matches_eq get_id_matches_eq no_identifier_in_name_rules
          no_identifier_in_alias_rules all_identifier_rules split: if_splits)
  have d: "filter is_identifier_match (matches (drop_duplicates out))
      = series_drop_duplicates (get_id_matches (l, r))"
    if "get_all_matches lower (l, r) = Inr out" for out
    using f [OF that]
    by (simp add: matches_drop_duplicates filter_series_drop_duplicates)
  show "filter is_identifier_match (matches out) = get_id_matches (l, r)"
    if "get_all_matches lower (l, r) = Inr out"
    using that by (rule f)
  show "filter is_identifier_match (matches (drop_duplicates out))
      = matches (drop_duplicates (out\<lparr>matches := get_id_matches (l, r)\<rparr>))"
    if "get_all_matches lower (l, r) = Inr out"
    using d [OF that] by (simp add: matches_drop_duplicates)
  assume ex: "id_numbers l = [\<lparr>idn_value = Some ''A123'', idn_comment = c\<rparr>]
        \<and> id_numbers r = [\<lparr>idn_value = Some ''A123'', idn_comment = c1\<rparr>,
                           \<lparr>idn_value = Some ''A123'', idn_comment = c2\<rparr>]"
  then show two: "get_id_matches (l, r)
              = [IdentifierMatch (Some ''A123'') c (Some ''A123'') c1,
                 IdentifierMatch (Some ''A123'') c (Some ''A123'') c2]"
    by (simp add: get_id_matches_eq identifier_rules_def)
  assume a: "get_all_matches lower (l, r) = Inr out"
  show "filter is_identifier_match (matches out)
      = [IdentifierMatch (Some ''A123'') c (Some ''A123'') c1,
         IdentifierMatch (Some ''A123'') c (Some ''A123'') c2]"
    using f [OF a] two by simp
  show k: "filter is_identifier_match (matches (drop_duplicates out))
      = (if c1 = c2
         then [IdentifierMatch (Some ''A123'') c (Some ''A123'') c1]
         else [IdentifierMatch (Some ''A123'') c (Some ''A123'') c1,
               IdentifierMatch (Some ''A123'') c (Some ''A123'') c2])"
    unfolding d [OF a] two by (simp add: series_drop_duplicates_def)
  show "length (filter is_identifier_match (matches (drop_duplicates out))) = 1 \<longleftrightarrow> c1 = c2"
    unfolding k by simp
qed

theorem get_id_matches_pairs_witness:
  "get_all_matches ascii_lower
     (gbr_example\<lparr>id_numbers := [\<lparr>idn_value = Some ''A123'', idn_comment = Some ''passport''\<rparr>]\<rparr>,
      ofac_example\<lparr>id_numbers := [\<lparr>idn_value = Some ''A123'', idn_comment = Some ''reg''\<rparr>,
                                   \<lparr>idn_value = Some ''A123'', idn_comment = Some ''reg''\<rparr>]\<rparr>)
     = Inr \<lparr>gbr_id = 1, ofac_id = 9,
            matches =
              [NameToName ''Ali Hassan'' ''ali hassan'',
               IdentifierMatch (Some ''A123'') (Some ''passport'') (Some ''A123'') (Some ''reg''),
               IdentifierMatch (Some ''A123'') (Some ''passport'') (Some ''A123'') (Some ''reg'')]\<rparr>
   \<and> drop_duplicates
       \<lparr>gbr_id = 1, ofac_id = 9,
        matches =
          [NameToName ''Ali Hassan'' ''ali hassan'',
           IdentifierMatch (Some ''A123'') (Some ''passport'') (Some ''A123'') (Some ''reg''),
           IdentifierMatch (Some ''A123'') (Some ''passport'') (Some ''A123'') (Some ''reg'')]\<rparr>
     = \<lparr>gbr_id = 1, ofac_id = 9,
        matches =
          [NameToName ''Ali Hassan'' ''ali hassan'',
           IdentifierMatch (Some ''A123'') (Some ''passport'') (Some ''A123'') (Some ''reg'')]\<rparr>
   \<and> filter is_identifier_match (matches (drop_duplicates
       \<lparr>gbr_id = 1, ofac_id = 9,
        matches =
          [NameToName ''Ali Hassan'' ''ali hassan'',
           IdentifierMatch (Some ''A123'') (Some ''passport'') (Some ''A123'') (Some ''reg''),
           IdentifierMatch (Some ''A123'') (Some ''passport'') (Some ''A123'') (Some ''reg'')]\<rparr>))
     = [IdentifierMatch (Some ''A123'') (Some ''passport'') (Some ''A123'') (Some ''reg'')]
   \<and> get_all_matches ascii_lower
     (gbr_example\<lparr>id_numbers := [\<lparr>idn_value = Some ''A123'', idn_comment = Some ''passport''\<rparr>]\<rparr>,
      ofac_example\<lparr>id_numbers := [\<lparr>idn_value = Some ''A123'', idn_comment = Some ''reg''\<rparr>,
                                   \<lparr>idn_value = Some ''A123'', idn_comment = None\<rparr>]\<rparr>)
     = Inr \<lparr>gbr_id = 1, ofac_id = 9,
            matches =
              [NameToName ''Ali Hassan'' ''ali hassan'',
               IdentifierMatch (Some ''A123'') (Some ''passport'') (Some ''A123'') (Some ''reg''),
               IdentifierMatch (Some ''A123'') (Some ''passport'') (Some ''A123'') None]\<rparr>
   \<and> filter is_identifier_match (matches (drop_duplicates
       \<lparr>gbr_id = 1, ofac_id = 9,
        matches =
          [NameToName ''Ali Hassan'' ''ali hassan'',
           IdentifierMatch (Some ''A123'') (Some ''passport'') (Some ''A123'') (Some ''reg''),
           IdentifierMatch (Some ''A123'') (Some ''passport'') (Some ''A123'') None]\<rparr>))
     = [IdentifierMatch (Some ''A123'') (Some ''passport'') (Some ''A123'') (Some ''reg''),
        IdentifierMatch (Some ''A123'') (Some ''passport'') (Some ''A123'') None]"
proof -
  let ?l = "gbr_example\<lparr>id_numbers :=
      [\<lparr>idn_value = Some ''A123'', idn_comment = Some ''passport''\<rparr>]\<rparr>"
  let ?r = "ofac_example\<lparr>id_numbers :=
      [\<lparr>idn_value = Some ''A123'', idn_comment = Some ''reg''\<rparr>,
       \<lparr>idn_value = Some ''A123'', idn_comment = Some ''reg''\<rparr>]\<rparr>"
  let ?r' = "ofac_example\<lparr>id_numbers :=
      [\<lparr>idn_value = Some ''A123'', idn_comment = Some ''reg''\<rparr>,
       \<lparr>idn_value = Some ''A123'', idn_comment = None\<rparr>]\<rparr>"
  let ?out = "\<lparr>gbr_id = 1, ofac_id = 9,
            matches =
              [NameToName ''Ali Hassan'' ''ali hassan'',
               IdentifierMatch (Some ''A123'') (Some ''passport'') (Some ''A123'') (Some ''reg''),
               IdentifierMatch (Some ''A123'') (Some ''passport'') (Some ''A123'') (Some ''reg'')]\<rparr>"
  let ?out' = "\<lparr>gbr_id = 1, ofac_id = 9,
            matches =
              [NameToName ''Ali Hassan'' ''ali hassan'',
               IdentifierMatch (Some ''A123'') (Some ''passport'') (Some ''A123'') (Some ''reg''),
               IdentifierMatch (Some ''A123'') (Some ''passport'') (Some ''A123'') None]\<rparr>"
  have h: "id_numbers ?l = [\<lparr>idn_value = Some ''A123'', idn_comment = Some ''passport''\<rparr>]
      \<and> id_numbers ?r = [\<lparr>idn_value = Some ''A123'', idn_comment = Some ''reg''\<rparr>,
                          \<lparr>idn_value = Some ''A123'', idn_comment = Some ''reg''\<rparr>]"
    by simp
  have h': "id_numbers ?l = [\<lparr>idn_value = Some ''A123'', idn_comment = Some ''passport''\<rparr>]
      \<and> id_numbers ?r' = [\<lparr>idn_value = Some ''A123'', idn_comment = Some ''reg''\<rparr>,
                           \<lparr>idn_value = Some ''A123'', idn_comment = None\<rparr>]"
    by simp
  have a: "get_all_matches ascii_lower (?l, ?r) = Inr ?out"
    by code_simp
  have a': "get_all_matches ascii_lower (?l, ?r') = Inr ?out'"
    by code_simp
  have e: "drop_duplicates ?out
     = \<lparr>gbr_id = 1, ofac_id = 9,
        matches =
          [NameToName ''Ali Hassan'' ''ali hassan'',
           IdentifierMatch (Some ''A123'') (Some ''passport'') (Some ''A123'') (Some ''reg'')]\<rparr>"
    by code_simp
  note t = get_id_matches_pairs
      [of ?l ?r ascii_lower ?out "Some ''passport''" "Some ''reg''" "Some ''reg''",
        THEN conjunct2, THEN conjunct2, rule_format, OF h, THEN conjunct2, rule_format, OF a,
        THEN conjunct2, THEN conjunct1]
  note t' = get_id_matches_pairs
      [of ?l ?r' ascii_lower ?out' "Some ''passport''" "Some ''reg''" None,
        THEN conjunct2, THEN conjunct2, rule_format, OF h', THEN conjunct2, rule_format, OF a',
        THEN conjunct2, THEN conjunct1]
  have one: "filter is_identifier_match (matches (drop_duplicates ?out))
     = [IdentifierMatch (Some ''A123'') (Some ''passport'') (Some ''A123'') (Some ''reg'')]"
    using t by simp
  have both: "filter is_identifier_match (matches (drop_duplicates ?out'))
     = [IdentifierMatch (Some ''A123'') (Some ''passport'') (Some ''A123'') (Some ''reg''),
        IdentifierMatch (Some ''A123'') (Some ''passport'') (Some ''A123'') None]"
    using t' by simp
  show ?thesis
    using a e one a' both by (simp only: simp_thms)
qed

text \<open>
  C6. When \<open>get_all_matches\<close> returns on a pair it returns on the swapped pair, and the
  matches of the one are, as a multiset, the mirrored matches of the other: a
  \<open>NameToName\<close> or \<open>IdentifierMatch\<close> entry is in the one exactly when the entry of
  the same variant with left and right fields exchanged is in the other, and a
  \<open>NameToAlias\<close> entry is in the one exactly when the \<open>AliasToName\<close> entry with the same
  name and alias is in the other, and conversely.
\<close>

theorem get_all_matches_mirrored:
  "get_all_matches lower (l, r) = Inr out \<longrightarrow>
     (\<exists>out'. get_all_matches lower (r, l) = Inr out'
        \<and> mset (matches out') = image_mset mirror (mset (matches out))
        \<and> (\<forall>ln rn. NameToName ln rn \<in> set (matches out)
              \<longleftrightarrow> NameToName rn ln \<in> set (matches out'))
        \<and> (\<forall>lv lc rv rc. IdentifierMatch lv lc rv rc \<in> set (matches out)
              \<longleftrightarrow> IdentifierMatch rv rc lv lc \<in> set (matches out'))
        \<and> (\<forall>ln ra. NameToAlias ln ra \<in> set (matches out)
              \<longleftrightarrow> AliasToName ra ln \<in> set (matches out'))
        \<and> (\<forall>la rn. AliasToName la rn \<in> set (matches out)
              \<longleftrightarrow> NameToAlias rn la \<in> set (matches out')))"
proof
  assume a: "get_all_matches lower (l, r) = Inr out"
  then have v: "aliases_have_values l" "aliases_have_values r"
    and out: "matches out = name_rules lower l r @ alias_rules lower l r @ identifier_rules l r"
    by (auto simp add: get_all_matches_eq split: if_splits)
  define out' where "out' = \<lparr>gbr_id = rec_id r, ofac_id = rec_id l,
      matches = name_rules lower r l @ alias_rules lower r l @ identifier_rules r l\<rparr>"
  have b: "get_all_matches lower (r, l) = Inr out'"
    using v by (simp add: get_all_matches_eq out'_def)
  have m: "mset (matches out') = image_mset mirror (mset (matches out))"
    unfolding out by (simp only: mset_mirror_all_rules out'_def output_record.simps)
  have s: "x \<in> set (matches out) \<longleftrightarrow> mirror x \<in> set (matches out')" for x
    using m by (rule mirror_in_set)
  show "\<exists>out'. get_all_matches lower (r, l) = Inr out'
        \<and> mset (matches out') = image_mset mirror (mset (matches out))
        \<and> (\<forall>ln rn. NameToName ln rn \<in> set (matches out)
              \<longleftrightarrow> NameToName rn ln \<in> set (matches out'))
        \<and> (\<forall>lv lc rv rc. IdentifierMatch lv lc rv rc \<in> set (matches out)
              \<longleftrightarrow> IdentifierMatch rv rc lv lc \<in> set (matches out'))
        \<and> (\<forall>ln ra. NameToAlias ln ra \<in> set (matches out)
              \<longleftrightarrow> AliasToName ra ln \<in> set (matches out'))
        \<and> (\<forall>la rn. AliasToName la rn \<in> set (matches out)
              \<longleftrightarrow> NameToAlias rn la \<in> set (matches out'))"
    using b m s [of "NameToName _ _"] s [of "IdentifierMatch _ _ _ _"]
      s [of "NameToAlias _ _"] s [of "AliasToName _ _"]
    by (intro exI [of _ out']) simp
qed

theorem get_all_matches_mirrored_witness:
  "get_all_matches ascii_lower (gbr_alias_example, ofac_alias_example)
     = Inr \<lparr>gbr_id = 1, ofac_id = 9,
            matches = [NameToAlias ''Ali Hassan'' (Some ''ALI HASSAN''),
                       AliasToName (Some ''Hassan, Ali'') ''hassan ali'',
                       IdentifierMatch (Some ''X1'') (Some ''passport'') (Some ''X1'') None]\<rparr>
   \<and> get_all_matches ascii_lower (ofac_alias_example, gbr_alias_example)
     = Inr \<lparr>gbr_id = 9, ofac_id = 1,
            matches = [NameToAlias ''hassan ali'' (Some ''Hassan, Ali''),
                       AliasToName (Some ''ALI HASSAN'') ''Ali Hassan'',
                       IdentifierMatch (Some ''X1'') None (Some ''X1'') (Some ''passport'')]\<rparr>
   \<and> get_all_matches ascii_lower (gbr_example, ofac_example)
     = Inr \<lparr>gbr_id = 1, ofac_id = 9,
            matches = [NameToName ''Ali Hassan'' ''ali hassan'',
                       IdentifierMatch (Some ''X1'') (Some ''passport'')
                         (Some ''X1'') (Some ''reg'')]\<rparr>
   \<and> get_all_matches ascii_lower (ofac_example, gbr_example)
     = Inr \<lparr>gbr_id = 9, ofac_id = 1,
            matches = [NameToName ''ali hassan'' ''Ali Hassan'',
                       IdentifierMatch (Some ''X1'') (Some ''reg'')
                         (Some ''X1'') (Some ''passport'')]\<rparr>"
proof -
  have a: "get_all_matches ascii_lower (gbr_alias_example, ofac_alias_example)
     = Inr \<lparr>gbr_id = 1, ofac_id = 9,
            matches = [NameToAlias ''Ali Hassan'' (Some ''ALI HASSAN''),
                       AliasToName (Some ''Hassan, Ali'') ''hassan ali'',
                       IdentifierMatch (Some ''X1'') (Some ''passport'') (Some ''X1'') None]\<rparr>"
    by code_simp
  have b: "get_all_matches ascii_lower (ofac_alias_example, gbr_alias_example)
     = Inr \<lparr>gbr_id = 9, ofac_id = 1,
            matches = [NameToAlias ''hassan ali'' (Some ''Hassan, Ali''),
                       AliasToName (Some ''ALI HASSAN'') ''Ali Hassan'',
                       IdentifierMatch (Some ''X1'') None (Some ''X1'') (Some ''passport'')]\<rparr>"
    by code_simp
  have c: "get_all_matches ascii_lower (gbr_example, ofac_example)
     = Inr \<lparr>gbr_id = 1, ofac_id = 9,
            matches = [NameToName ''Ali Hassan'' ''ali hassan'',
                       IdentifierMatch (Some ''X1'') (Some ''passport'')
                         (Some ''X1'') (Some ''reg'')]\<rparr>"
    by code_simp
  have d: "get_all_matches ascii_lower (ofac_example, gbr_example)
     = Inr \<lparr>gbr_id = 9, ofac_id = 1,
            matches = [NameToName ''ali hassan'' ''Ali Hassan'',
                       IdentifierMatch (Some ''X1'') (Some ''reg'')
                         (Some ''X1'') (Some ''passport'')]\<rparr>"
    by code_simp
  show ?thesis
    using get_all_matches_mirrored [of ascii_lower gbr_alias_example ofac_alias_example
        "\<lparr>gbr_id = 1, ofac_id = 9,
            matches = [NameToAlias ''Ali Hassan'' (Some ''ALI HASSAN''),
                       AliasToName (Some ''Hassan, Ali'') ''hassan ali'',
                       IdentifierMatch (Some ''X1'') (Some ''passport'') (Some ''X1'') None]\<rparr>"]
      get_all_matches_mirrored [of ascii_lower gbr_example ofac_example
        "\<lparr>gbr_id = 1, ofac_id = 9,
            matches = [NameToName ''Ali Hassan'' ''ali hassan'',
                       IdentifierMatch (Some ''X1'') (Some ''passport'')
                         (Some ''X1'') (Some ''reg'')]\<rparr>"]
      a b c d
    by simp
qed

text \<open>
  C1. An alias without a value reaches the matching engine: the decoded line whose one
  alias has a type and no value standardizes to a record whose alias has the value
  \<open>None\<close>, and \<open>get_all_matches\<close> on the example record and this record raises
  \<open>AttributeError\<close>, as \<open>clean_name\<close> does on \<open>None\<close>, whatever \<open>str.lower\<close> is.
\<close>

theorem get_all_matches_None_alias:
  "standardize_record Map.empty
     \<lparr>raw_id = Some (JInt 9), raw_type = Some (JStr ''individual''),
      raw_name = Some (JStr ''ali hassan''),
      raw_aliases = Some (NonNull [NonNull [''type'' \<mapsto> Some ''a.k.a.'']]),
      raw_nationality = None, raw_addresses = None, raw_id_numbers = None,
      raw_place_of_birth = None, raw_position = None, raw_reported_dates_of_birth = None\<rparr>
   = Inr \<lparr>rec_id = 9, rec_type = ''individual'', name = ''ali hassan'',
          aliases = [\<lparr>alias_value = None, alias_type = Some ''a.k.a.''\<rparr>],
          nationality = Some [], addresses = [], id_numbers = [],
          place_of_birth = None, position = None, reported_dates_of_birth = Some []\<rparr>
   \<and> get_all_matches lower
        (gbr_example,
         \<lparr>rec_id = 9, rec_type = ''individual'', name = ''ali hassan'',
          aliases = [\<lparr>alias_value = None, alias_type = Some ''a.k.a.''\<rparr>],
          nationality = Some [], addresses = [], id_numbers = [],
          place_of_birth = None, position = None, reported_dates_of_birth = Some []\<rparr>)
       = Inl AttributeError
   \<and> clean_name lower None = Inl AttributeError"
  by (simp add: standardize_record_def standardize_aliases_def get_or_None_def
        get_all_matches_eq aliases_have_values_def)

section \<open>Properties of the record standardizer\<close>

lemma standardize_aliases_cases:
  "(list_of_dicts x \<longrightarrow>
      (\<exists>as. (case x of Some l \<Rightarrow> standardize_aliases l | None \<Rightarrow> Inr []) = Inr as
            \<and> (x = None \<longrightarrow> as = [])))
   \<and> (\<not> list_of_dicts x \<longrightarrow>
      (case x of Some l \<Rightarrow> standardize_aliases l | None \<Rightarrow> Inr []) = Inl TypeError)"
proof (cases x)
  case None
  then show ?thesis by simp
next
  case (Some l)
  show ?thesis
  proof (cases l)
    case Null
    with Some show ?thesis by (simp add: standardize_aliases_def)
  next
    case (NonNull xs)
    have "for_each xs
            (\<lambda>alias standard_aliases.
               case alias of
                 Null \<Rightarrow> Inl TypeError
               | NonNull d \<Rightarrow>
                   Inr (standard_aliases
                        @ [\<lparr>alias_value = get_or_None d ''value'',
                             alias_type = get_or_None d ''type''\<rparr>]))
            []
        = (if \<forall>a \<in> set xs. a \<noteq> Null
           then Inr ([] @ concat (map (\<lambda>a. case a of
                                     Null \<Rightarrow> []
                                   | NonNull d \<Rightarrow>
                                       [\<lparr>alias_value = get_or_None d ''value'',
                                         alias_type = get_or_None d ''type''\<rparr>]) xs))
           else Inl TypeError)"
      by (rule for_each_append) (simp split: or_null.splits)
    with Some NonNull show ?thesis
      by (auto simp add: standardize_aliases_def list_all_iff)
  qed
qed

lemma standardize_addresses_cases:
  "(list_of_dicts x \<longrightarrow>
      (\<exists>as. (case x of Some l \<Rightarrow> standardize_addresses l | None \<Rightarrow> Inr []) = Inr as
            \<and> (x = None \<longrightarrow> as = [])))
   \<and> (\<not> list_of_dicts x \<longrightarrow>
      (case x of Some l \<Rightarrow> standardize_addresses l | None \<Rightarrow> Inr []) = Inl TypeError)"
proof (cases x)
  case None
  then show ?thesis by simp
next
  case (Some l)
  show ?thesis
  proof (cases l)
    case Null
    with Some show ?thesis by (simp add: standardize_addresses_def)
  next
    case (NonNull xs)
    have "for_each xs
            (\<lambda>address standard_addresses.
               case address of
                 Null \<Rightarrow> Inl TypeError
               | NonNull d \<Rightarrow>
                   Inr (standard_addresses
                        @ [\<lparr>addr_value = get_or_None d ''value'',
                             country = get_or_None d ''country'',
                             postal_code = get_or_None d ''postal_code''\<rparr>]))
            []
        = (if \<forall>a \<in> set xs. a \<noteq> Null
           then Inr ([] @ concat (map (\<lambda>a. case a of
                                     Null \<Rightarrow> []
                                   | NonNull d \<Rightarrow>
                                       [\<lparr>addr_value = get_or_None d ''value'',
                                         country = get_or_None d ''country'',
                                         postal_code = get_or_None d ''postal_code''\<rparr>]) xs))
           else Inl TypeError)"
      by (rule for_each_append) (simp split: or_null.splits)
    with Some NonNull show ?thesis
      by (auto simp add: standardize_addresses_def list_all_iff)
  qed
qed

lemma standardize_id_numbers_cases:
  "(list_of_dicts x \<longrightarrow>
      (\<exists>as. (case x of Some l \<Rightarrow> standardize_id_numbers l | None \<Rightarrow> Inr []) = Inr as
            \<and> (x = None \<longrightarrow> as = [])))
   \<and> (\<not> list_of_dicts x \<longrightarrow>
      (case x of Some l \<Rightarrow> standardize_id_numbers l | None \<Rightarrow> Inr []) = Inl TypeError)"
proof (cases x)
  case None
  then show ?thesis by simp
next
  case (Some l)
  show ?thesis
  proof (cases l)
    case Null
    with Some show ?thesis by (simp add: standardize_id_numbers_def)
  next
    case (NonNull xs)
    have "for_each xs
            (\<lambda>id_numbers standard_id_numbers.
               case id_numbers of
                 Null \<Rightarrow> Inl TypeError
               | NonNull d \<Rightarrow>
                   Inr (standard_id_numbers
                        @ [\<lparr>idn_value = get_or_None d ''value'',
                             idn_comment = get_or_None d ''comment''\<rparr>]))
            []
        = (if \<forall>a \<in> set xs. a \<noteq> Null
           then Inr ([] @ concat (map (\<lambda>a. case a of
                                     Null \<Rightarrow> []
                                   | NonNull d \<Rightarrow>
                                       [\<lparr>idn_value = get_or_None d ''value'',
                                         idn_comment = get_or_None d ''comment''\<rparr>]) xs))
           else Inl TypeError)"
      by (rule for_each_append) (simp split: or_null.splits)
    with Some NonNull show ?thesis
      by (auto simp add: standardize_id_numbers_def list_all_iff)
  qed
qed

lemma py_int_not_missing:
  "py_int parse v \<noteq> Inl (ValueError ''id not found'')"
  "py_int parse v \<noteq> Inl (ValueError ''type not found'')"
  "py_int parse v \<noteq> Inl (ValueError ''name not found'')"
  by (cases v; simp split: option.splits)+

text \<open>
  Once \<open>id\<close>, \<open>type\<close> and \<open>name\<close> have passed, the call returns a record when the three
  lists of dicts are well shaped and raises \<open>TypeError\<close> otherwise; an absent field of
  the record returned has its default.
\<close>

lemma standardize_record_lists:
  assumes "raw_id d = Some v" "py_int parse v = Inr i" "raw_type d = Some t" "raw_name d = Some n"
  shows "(list_of_dicts (raw_aliases d) \<and> list_of_dicts (raw_addresses d)
            \<and> list_of_dicts (raw_id_numbers d)
          \<longrightarrow> (\<exists>r. standardize_record parse d = Inr r
                 \<and> (raw_aliases d = None \<longrightarrow> aliases r = [])
                 \<and> (raw_nationality d = None \<longrightarrow> nationality r = Some [])
                 \<and> (raw_addresses d = None \<longrightarrow> addresses r = [])
                 \<and> (raw_id_numbers d = None \<longrightarrow> id_numbers r = [])
                 \<and> (raw_reported_dates_of_birth d = None
                      \<longrightarrow> reported_dates_of_birth r = Some [])
                 \<and> (raw_place_of_birth d = None \<longrightarrow> place_of_birth r = None)
                 \<and> (raw_position d = None \<longrightarrow> position r = None)))
         \<and> (\<not> (list_of_dicts (raw_aliases d) \<and> list_of_dicts (raw_addresses d)
                \<and> list_of_dicts (raw_id_numbers d))
          \<longrightarrow> standardize_record parse d = Inl TypeError)"
proof -
  note a = standardize_aliases_cases [of "raw_aliases d"]
  note b = standardize_addresses_cases [of "raw_addresses d"]
  note c = standardize_id_numbers_cases [of "raw_id_numbers d"]
  show ?thesis
  proof (cases "list_of_dicts (raw_aliases d)")
    case False
    with a assms show ?thesis by (simp add: standardize_record_def)
  next
    case la: True
    with a obtain as where as: "(case raw_aliases d of Some l \<Rightarrow> standardize_aliases l
        | None \<Rightarrow> Inr []) = Inr as" "raw_aliases d = None \<longrightarrow> as = []"
      by auto
    show ?thesis
    proof (cases "list_of_dicts (raw_addresses d)")
      case False
      with b assms as la show ?thesis by (simp add: standardize_record_def)
    next
      case lb: True
      with b obtain bs where bs: "(case raw_addresses d of Some l \<Rightarrow> standardize_addresses l
          | None \<Rightarrow> Inr []) = Inr bs" "raw_addresses d = None \<longrightarrow> bs = []"
        by auto
      show ?thesis
      proof (cases "list_of_dicts (raw_id_numbers d)")
        case False
        with c assms as bs la lb show ?thesis by (simp add: standardize_record_def)
      next
        case lc: True
        with c obtain cs where cs: "(case raw_id_numbers d of Some l \<Rightarrow> standardize_id_numbers l
            | None \<Rightarrow> Inr []) = Inr cs" "raw_id_numbers d = None \<longrightarrow> cs = []"
          by auto
        from assms as bs cs la lb lc show ?thesis
          by (simp add: standardize_record_def)
      qed
    qed
  qed
qed

text \<open>
  C2. \<open>standardize_record\<close> raises \<open>ValueError("id not found")\<close> exactly when \<open>id\<close> is
  absent, \<open>ValueError("type not found")\<close> exactly when \<open>id\<close> is present and \<open>int()\<close>
  accepts it and \<open>type\<close> is absent, and \<open>ValueError("name not found")\<close> exactly when
  moreover \<open>type\<close> is present and \<open>name\<close> is absent. When \<open>id\<close> is present and \<open>int()\<close>
  raises on it, that error is the one raised, whatever the other fields are. The call
  returns a record exactly when the three are present, \<open>int()\<close> accepts the id and each
  of \<open>aliases\<close>, \<open>addresses\<close> and \<open>id_numbers\<close> is absent or a list of dicts; then each of
  the other fields that is absent has its default: the empty list for \<open>aliases\<close>,
  \<open>nationality\<close>, \<open>addresses\<close>, \<open>id_numbers\<close> and \<open>reported_dates_of_birth\<close>, \<open>None\<close> for
  \<open>place_of_birth\<close> and \<open>position\<close>.
\<close>

theorem standardize_record_missing_fields:
  "(standardize_record parse d = Inl (ValueError ''id not found'') \<longleftrightarrow> raw_id d = None)
   \<and> (standardize_record parse d = Inl (ValueError ''type not found'')
        \<longleftrightarrow> (\<exists>v i. raw_id d = Some v \<and> py_int parse v = Inr i) \<and> raw_type d = None)
   \<and> (standardize_record parse d = Inl (ValueError ''name not found'')
        \<longleftrightarrow> (\<exists>v i. raw_id d = Some v \<and> py_int parse v = Inr i)
            \<and> raw_type d \<noteq> None \<and> raw_name d = None)
   \<and> (\<forall>v e. raw_id d = Some v \<and> py_int parse v = Inl e
        \<longrightarrow> standardize_record parse d = Inl e)
   \<and> ((\<exists>r. standardize_record parse d = Inr r)
        \<longleftrightarrow> (\<exists>v i. raw_id d = Some v \<and> py_int parse v = Inr i)
            \<and> raw_type d \<noteq> None \<and> raw_name d \<noteq> None
            \<and> list_of_dicts (raw_aliases d) \<and> list_of_dicts (raw_addresses d)
            \<and> list_of_dicts (raw_id_numbers d))
   \<and> (standardize_record parse d = Inr r \<longrightarrow>
        (raw_aliases d = None \<longrightarrow> aliases r = [])
        \<and> (raw_nationality d = None \<longrightarrow> nationality r = Some [])
        \<and> (raw_addresses d = None \<longrightarrow> addresses r = [])
        \<and> (raw_id_numbers d = None \<longrightarrow> id_numbers r = [])
        \<and> (raw_reported_dates_of_birth d = None \<longrightarrow> reported_dates_of_birth r = Some [])
        \<and> (raw_place_of_birth d = None \<longrightarrow> place_of_birth r = None)
        \<and> (raw_position d = None \<longrightarrow> position r = None))"
proof -
  consider (no_id) "raw_id d = None"
    | (bad_id) v e where "raw_id d = Some v" "py_int parse v = Inl e"
    | (no_type) v i where "raw_id d = Some v" "py_int parse v = Inr i" "raw_type d = None"
    | (no_name) v i t where "raw_id d = Some v" "py_int parse v = Inr i"
        "raw_type d = Some t" "raw_name d = None"
    | (ok) v i t n where "raw_id d = Some v" "py_int parse v = Inr i"
        "raw_type d = Some t" "raw_name d = Some n"
    by (cases "raw_id d"; cases "raw_type d"; cases "raw_name d";
        cases "py_int parse (the (raw_id d))") auto
  then show ?thesis
  proof cases
    case no_id
    then show ?thesis by (simp add: standardize_record_def)
  next
    case bad_id
    then show ?thesis
      using py_int_not_missing [of parse v] by (simp add: standardize_record_def)
  next
    case no_type
    then show ?thesis by (simp add: standardize_record_def)
  next
    case no_name
    then show ?thesis by (simp add: standardize_record_def)
  next
    case ok
    note l = standardize_record_lists [OF ok]
    show ?thesis
    proof (cases "list_of_dicts (raw_aliases d) \<and> list_of_dicts (raw_addresses d)
            \<and> list_of_dicts (raw_id_numbers d)")
      case True
      with l obtain r' where r': "standardize_record parse d = Inr r'"
          "raw_aliases d = None \<longrightarrow> aliases r' = []"
          "raw_nationality d = None \<longrightarrow> nationality r' = Some []"
          "raw_addresses d = None \<longrightarrow> addresses r' = []"
          "raw_id_numbers d = None \<longrightarrow> id_numbers r' = []"
          "raw_reported_dates_of_birth d = None \<longrightarrow> reported_dates_of_birth r' = Some []"
          "raw_place_of_birth d = None \<longrightarrow> place_of_birth r' = None"
          "raw_position d = None \<longrightarrow> position r' = None"
        by auto
      with True ok show ?thesis by auto
    next
      case False
      with l have "standardize_record parse d = Inl TypeError" by blast
      with False ok show ?thesis by simp
    qed
  qed
qed

theorem standardize_record_missing_fields_witness:
  "standardize_record Map.empty gbr_line = Inr gbr_example
   \<and> standardize_record Map.empty ofac_line = Inr ofac_example
   \<and> raw_aliases gbr_line = None \<and> aliases gbr_example = []
   \<and> raw_position gbr_line = None \<and> position gbr_example = None
   \<and> standardize_record Map.empty (gbr_line\<lparr>raw_name := None\<rparr>)
       = Inl (ValueError ''name not found'')
   \<and> standardize_record Map.empty (gbr_line\<lparr>raw_id := Some (JStr ''one'')\<rparr>)
       = Inl (ValueError ''invalid literal for int()'')"
proof -
  have g: "standardize_record Map.empty gbr_line = Inr gbr_example"
    by (simp add: standardize_record_def gbr_line_def gbr_example_def
          standardize_id_numbers_def get_or_None_def)
  have f: "standardize_record Map.empty ofac_line = Inr ofac_example"
    by (simp add: standardize_record_def ofac_line_def ofac_example_def
          standardize_id_numbers_def get_or_None_def)
  have n: "raw_aliases gbr_line = None" "raw_position gbr_line = None"
    by (simp_all add: gbr_line_def)
  have i: "raw_id (gbr_line\<lparr>raw_name := None\<rparr>) = Some (JInt 1)"
      "raw_type (gbr_line\<lparr>raw_name := None\<rparr>) \<noteq> None"
      "raw_name (gbr_line\<lparr>raw_name := None\<rparr>) = None"
    by (simp_all add: gbr_line_def)
  have j: "raw_id (gbr_line\<lparr>raw_id := Some (JStr ''one'')\<rparr>) = Some (JStr ''one'')
      \<and> py_int Map.empty (JStr ''one'') = Inl (ValueError ''invalid literal for int()'')"
    by simp
  have a: "aliases gbr_example = [] \<and> position gbr_example = None"
    using standardize_record_missing_fields [of Map.empty gbr_line gbr_example] g n by blast
  have b: "standardize_record Map.empty (gbr_line\<lparr>raw_name := None\<rparr>)
       = Inl (ValueError ''name not found'')"
    using standardize_record_missing_fields [of Map.empty "gbr_line\<lparr>raw_name := None\<rparr>"] i
    by simp
  have c: "standardize_record Map.empty (gbr_line\<lparr>raw_id := Some (JStr ''one'')\<rparr>)
       = Inl (ValueError ''invalid literal for int()'')"
    using standardize_record_missing_fields
      [of Map.empty "gbr_line\<lparr>raw_id := Some (JStr ''one'')\<rparr>",
        THEN conjunct2, THEN conjunct2, THEN conjunct2, THEN conjunct1, rule_format,
        of "JStr ''one''" "ValueError ''invalid literal for int()''"] j
    by (simp only: simp_thms)
  show ?thesis
    using g f n a b c by (simp only: simp_thms)
qed

text \<open>
  A line without \<open>type\<close> whose \<open>id\<close> is \<open>null\<close>: \<open>int(None)\<close> raises \<open>TypeError\<close> before
  the \<open>type\<close> key is looked at.
\<close>

theorem standardize_record_missing_type_counterexample:
  "standardize_record Map.empty
     \<lparr>raw_id = Some JNull, raw_type = None, raw_name = Some (JStr ''Ali Hassan''),
      raw_aliases = None, raw_nationality = None, raw_addresses = None,
      raw_id_numbers = None, raw_place_of_birth = None, raw_position = None,
      raw_reported_dates_of_birth = None\<rparr>
   = Inl TypeError"
  by (simp add: standardize_record_def)

end
